theory Spec2Isabelle
  imports Complex_Main
begin

section \<open>The scoring module\<close>

text \<open>
  The module exports three pure functions over JavaScript numbers and dates:
  \<^verbatim>\<open>getDelayMinutes\<close>, \<^verbatim>\<open>getCompletionPercentage\<close> and
  \<^verbatim>\<open>calculateProductivityScore\<close>.

  A \<^verbatim>\<open>Date\<close> is read only through \<^verbatim>\<open>getTime()\<close>, so it is modelled by
  its time value: an integer count of milliseconds since the epoch. A finite
  \<^verbatim>\<open>number\<close> is modelled by a real; \<^verbatim>\<open>NaN\<close> and the infinities are not
  inputs of the model.

  The module is modelled twice. In this first model the arithmetic is exact: it is the
  module as its formulas read. The second model, further down, rounds the result of
  every operation to binary64, as the language does: it is the module as it runs. A
  statement is proved of both where both satisfy it, and where they differ the second
  decides what the program returns.

  One operation of the module has no result fixed by the language: \<^verbatim>\<open>Math.exp\<close>.
  In the second model it is the exponential rounded to binary64. The commitment bonus,
  the only place where it occurs, is modelled once more with \<^verbatim>\<open>Math.exp\<close> left
  to the engine, so that what is proved of the bonus holds whatever engine runs the
  module.
\<close>

subsection \<open>Data\<close>

record ProductivityScoreInput =
  scheduledStart :: int
  actualStart :: int
  durationMinutes :: real
  completedMinutes :: real

record ScoreBreakdown =
  promptnessScore :: int
  focusScore :: int
  commitmentBonus :: int
  totalScore :: int

subsection \<open>Library functions\<close>

text \<open>
  \<^verbatim>\<open>Math.round\<close> returns the integer nearest to its argument and, of two equally
  near integers, the greater one. \<^verbatim>\<open>Math.floor\<close> is \<^term>\<open>floor\<close>,
  \<^verbatim>\<open>Math.min\<close> and \<^verbatim>\<open>Math.max\<close> are \<^term>\<open>min\<close> and \<^term>\<open>max\<close>.
\<close>

definition Math_round :: "real \<Rightarrow> int" where
  "Math_round x = \<lfloor>x + 1 / 2\<rfloor>"

subsection \<open>Helpers\<close>

text \<open>
  \<^verbatim>\<open>
  export function getDelayMinutes(scheduledStart: Date, actualStart: Date): number {
    const delayMilliseconds = actualStart.getTime() - scheduledStart.getTime();
    return Math.floor(delayMilliseconds / (1000 * 60));
  }
  \<close>
\<close>

definition getDelayMinutes :: "int \<Rightarrow> int \<Rightarrow> int" where
  "getDelayMinutes scheduled actual =
     (let delayMilliseconds = actual - scheduled
      in \<lfloor>real_of_int delayMilliseconds / (1000 * 60)\<rfloor>)"

text \<open>
  \<^verbatim>\<open>
  export function getCompletionPercentage(completedMinutes: number, durationMinutes: number): number {
    if (durationMinutes <= 0) {
      return 0;
    }
    const ratio = completedMinutes / durationMinutes;
    return Math.max(0, Math.min(100, Math.round(ratio * 100)));
  }
  \<close>
\<close>

definition getCompletionPercentage :: "real \<Rightarrow> real \<Rightarrow> int" where
  "getCompletionPercentage completed duration =
     (if duration \<le> 0 then 0
      else let ratio = completed / duration
           in max 0 (min 100 (Math_round (ratio * 100))))"

subsection \<open>The three pillars and the score\<close>

text \<open>
  The body of \<^verbatim>\<open>calculateProductivityScore\<close> computes four local values before it
  rounds them. Each is a definition here, named after the local variable, so that a
  statement can speak of the value before rounding.

  Pillar 1, keyed on the delay in whole minutes:
  \<^verbatim>\<open>
  if (delayMinutes <= 2) { promptnessScore = 30; }
  else if (delayMinutes <= 10) { promptnessScore = 30 - 1.875 * (delayMinutes - 2); }
  else if (delayMinutes <= 30) { promptnessScore = 15 - 0.75 * (delayMinutes - 10); }
  else { promptnessScore = 0; }
  \<close>
\<close>

definition promptnessScore_unrounded :: "int \<Rightarrow> real" where
  "promptnessScore_unrounded delayMinutes =
     (if delayMinutes \<le> 2 then 30
      else if delayMinutes \<le> 10 then 30 - 1.875 * (real_of_int delayMinutes - 2)
      else if delayMinutes \<le> 30 then 15 - 0.75 * (real_of_int delayMinutes - 10)
      else 0)"

text \<open>
  Pillar 2:
  \<^verbatim>\<open>
  const completionPercentage = getCompletionPercentage(completedMinutes, durationMinutes);
  const focusScore = (completionPercentage / 100) * 60;
  \<close>
\<close>

definition focusScore_unrounded :: "real \<Rightarrow> real \<Rightarrow> real" where
  "focusScore_unrounded completed duration =
     (let completionPercentage = getCompletionPercentage completed duration
      in (real_of_int completionPercentage / 100) * 60)"

text \<open>
  Pillar 3:
  \<^verbatim>\<open>
  const maxBonus = 10;
  const commitmentBonus = (maxBonus + 0.5) / (1 + Math.exp(-0.07 * (completedMinutes - 45)));
  \<close>
\<close>

definition maxBonus :: real where
  "maxBonus = 10"

definition commitmentBonus_unrounded :: "real \<Rightarrow> real" where
  "commitmentBonus_unrounded completed =
     (maxBonus + 0.5) / (1 + exp (- 0.07 * (completed - 45)))"

text \<open>
  The total before rounding:
  \<^verbatim>\<open>
  const totalScore = Math.min(100, promptnessScore + focusScore + commitmentBonus);
  \<close>
\<close>

definition totalScore_unrounded :: "ProductivityScoreInput \<Rightarrow> real" where
  "totalScore_unrounded input =
     min 100
       (promptnessScore_unrounded (getDelayMinutes (scheduledStart input) (actualStart input))
        + focusScore_unrounded (completedMinutes input) (durationMinutes input)
        + commitmentBonus_unrounded (completedMinutes input))"

text \<open>
  \<^verbatim>\<open>
  return {
    promptnessScore: Math.round(promptnessScore),
    focusScore: Math.round(focusScore),
    commitmentBonus: Math.round(commitmentBonus),
    totalScore: Math.round(totalScore),
  };
  \<close>
\<close>

definition calculateProductivityScore :: "ProductivityScoreInput \<Rightarrow> ScoreBreakdown" where
  "calculateProductivityScore input =
     (let delayMinutes = getDelayMinutes (scheduledStart input) (actualStart input)
      in \<lparr>promptnessScore = Math_round (promptnessScore_unrounded delayMinutes),
          focusScore =
            Math_round (focusScore_unrounded (completedMinutes input) (durationMinutes input)),
          commitmentBonus = Math_round (commitmentBonus_unrounded (completedMinutes input)),
          totalScore = Math_round (totalScore_unrounded input)\<rparr>)"

section \<open>The same module in binary64 arithmetic\<close>

text \<open>
  A JavaScript \<^verbatim>\<open>number\<close> is an IEEE 754 binary64 value, and the result of
  every arithmetic operation is the exact result rounded to the nearest such value, to
  the one with an even significand when two are equally near. The definitions of this
  section repeat the ones above with that rounding written at every operation.

  A finite binary64 value is a real of the form \<open>m * 2 ^ e\<close> with \<open>\<bar>m\<bar> < 2 ^ 53\<close>.
  The exponent range is not modelled: the rounding below is the one of binary64 for
  results of magnitude between \<open>2 ^ - 1022\<close> and \<open>2 ^ 1024\<close>. Every value in an
  evaluation at given inputs below lies in that range. Beyond it binary64 has an
  infinity, and below it a coarser spacing, where this rounding has a large or a tiny
  real; the statements over all inputs below are chosen so that they hold either way.
\<close>

subsection \<open>Rounding to binary64\<close>

text \<open>The nearest integer, the even one of two equally near.\<close>

definition rne :: "real \<Rightarrow> int" where
  "rne r =
     (if r - of_int \<lfloor>r\<rfloor> < 1 / 2 then \<lfloor>r\<rfloor>
      else if 1 / 2 < r - of_int \<lfloor>r\<rfloor> then \<lfloor>r\<rfloor> + 1
      else if even \<lfloor>r\<rfloor> then \<lfloor>r\<rfloor> else \<lfloor>r\<rfloor> + 1)"

definition pow2 :: "int \<Rightarrow> real" where
  "pow2 e = 2 powr of_int e"

text \<open>
  The binade of \<open>x\<close> is the \<open>e\<close> with \<open>2 ^ e \<le> \<bar>x\<bar> < 2 ^ (e + 1)\<close>; the 53-bit
  significands of that binade are spaced \<open>2 ^ (e - 52)\<close> apart.
\<close>

definition binade :: "real \<Rightarrow> int" where
  "binade x = \<lfloor>log 2 \<bar>x\<bar>\<rfloor>"

definition ulp :: "real \<Rightarrow> real" where
  "ulp x = pow2 (binade x - 52)"

definition b64 :: "real \<Rightarrow> real" where
  "b64 x = sgn x * (of_int (rne (\<bar>x\<bar> / ulp x)) * ulp x)"

text \<open>
  \<^verbatim>\<open>Math.exp\<close> is modelled here as the exponential rounded to binary64, with no
  exponent range. The language leaves its last bits to the implementation, and in
  binary64 its result is \<^verbatim>\<open>Infinity\<close> for an argument above 709.78. The
  evaluations at given inputs below only use that its result lies between 0 and
  \<open>2 ^ - 53\<close> for an argument of at most \<open>- 38\<close>, and that
  \<^verbatim>\<open>Math.exp(0)\<close> is 1, which is so in every engine. What is stated of the
  commitment bonus over all inputs is stated of \<open>commitmentBonus_engine\<close>, defined
  at the end of this section, where \<^verbatim>\<open>Math.exp\<close> is the one of the engine and
  overflows.
\<close>

definition Math_exp :: "real \<Rightarrow> real" where
  "Math_exp x = b64 (exp x)"

subsection \<open>The functions\<close>

text \<open>
  The literals \<^verbatim>\<open>2\<close>, \<^verbatim>\<open>10\<close>, \<^verbatim>\<open>15\<close>, \<^verbatim>\<open>30\<close>, \<^verbatim>\<open>45\<close>,
  \<^verbatim>\<open>60\<close>, \<^verbatim>\<open>100\<close>, \<^verbatim>\<open>0.5\<close>, \<^verbatim>\<open>0.75\<close> and \<^verbatim>\<open>1.875\<close> are
  binary64 values. The literal \<^verbatim>\<open>0.07\<close> is not, and denotes \<^term>\<open>b64 0.07\<close>.
  The arguments are binary64 values already, and so is every time value, an integer of
  magnitude at most \<open>8.64 * 10 ^ 15\<close>. As in the first model, the definitions named
  after the local variables \<^verbatim>\<open>promptnessScore\<close>, \<^verbatim>\<open>focusScore\<close>,
  \<^verbatim>\<open>commitmentBonus\<close> and \<^verbatim>\<open>totalScore\<close> are the values of those variables,
  each before it is given to \<^verbatim>\<open>Math.round\<close>.
\<close>

definition getDelayMinutes_binary64 :: "int \<Rightarrow> int \<Rightarrow> int" where
  "getDelayMinutes_binary64 scheduled actual =
     (let delayMilliseconds = b64 (real_of_int actual - real_of_int scheduled)
      in \<lfloor>b64 (delayMilliseconds / (1000 * 60))\<rfloor>)"

definition getCompletionPercentage_binary64 :: "real \<Rightarrow> real \<Rightarrow> int" where
  "getCompletionPercentage_binary64 completed duration =
     (if duration \<le> 0 then 0
      else let ratio = b64 (completed / duration)
           in max 0 (min 100 (Math_round (b64 (ratio * 100)))))"

definition promptnessScore_binary64 :: "int \<Rightarrow> real" where
  "promptnessScore_binary64 delayMinutes =
     (if delayMinutes \<le> 2 then 30
      else if delayMinutes \<le> 10
        then b64 (30 - b64 (1.875 * b64 (real_of_int delayMinutes - 2)))
      else if delayMinutes \<le> 30
        then b64 (15 - b64 (0.75 * b64 (real_of_int delayMinutes - 10)))
      else 0)"

definition focusScore_binary64 :: "real \<Rightarrow> real \<Rightarrow> real" where
  "focusScore_binary64 completed duration =
     (let completionPercentage = getCompletionPercentage_binary64 completed duration
      in b64 (b64 (real_of_int completionPercentage / 100) * 60))"

definition commitmentBonus_binary64 :: "real \<Rightarrow> real" where
  "commitmentBonus_binary64 completed =
     b64 (b64 (maxBonus + 0.5)
          / b64 (1 + Math_exp (b64 (- b64 0.07 * b64 (completed - 45)))))"

definition totalScore_binary64 :: "ProductivityScoreInput \<Rightarrow> real" where
  "totalScore_binary64 input =
     min 100
       (b64 (b64 (promptnessScore_binary64
                    (getDelayMinutes_binary64 (scheduledStart input) (actualStart input))
                  + focusScore_binary64 (completedMinutes input) (durationMinutes input))
             + commitmentBonus_binary64 (completedMinutes input)))"

definition calculateProductivityScore_binary64 ::
    "ProductivityScoreInput \<Rightarrow> ScoreBreakdown" where
  "calculateProductivityScore_binary64 input =
     (let delayMinutes = getDelayMinutes_binary64 (scheduledStart input) (actualStart input)
      in \<lparr>promptnessScore = Math_round (promptnessScore_binary64 delayMinutes),
          focusScore =
            Math_round (focusScore_binary64 (completedMinutes input) (durationMinutes input)),
          commitmentBonus = Math_round (commitmentBonus_binary64 (completedMinutes input)),
          totalScore = Math_round (totalScore_binary64 input)\<rparr>)"

subsection \<open>The exponential of the engine\<close>

text \<open>
  The language specifies \<^verbatim>\<open>Math.exp\<close> as an approximation that the
  implementation chooses, and engines differ in its last bit. Its result is a finite
  number that is not negative, or \<^verbatim>\<open>Infinity\<close>.
\<close>

datatype exp_result = Finite real | PlusInfinity

text \<open>
  \<open>engine_exp E\<close> says what is assumed of the \<^verbatim>\<open>Math.exp\<close> of an engine, as
  a function \<open>E\<close> of the argument:
  \<^item> \<^verbatim>\<open>Math.exp(0)\<close> is 1, as the language requires;
  \<^item> a finite result is not negative and differs from the exponential by at most
    \<open>2 ^ - 45\<close> of it, or by at most \<open>2 ^ - 1074\<close>, the least positive binary64
    value, where the exponential underflows; the engines in use are within one unit in
    the last place, which is \<open>2 ^ - 52\<close> of the result or less;
  \<^item> the result is \<^verbatim>\<open>Infinity\<close> only where the exponential is \<open>2 ^ 1023\<close> or
    more, and finite only where it is less than \<open>2 ^ 1025\<close>; the finite binary64
    values end just below \<open>2 ^ 1024\<close>.

  Nothing is assumed of how the result is rounded, nor that a greater argument gives
  a greater result.
\<close>

definition engine_exp :: "(real \<Rightarrow> exp_result) \<Rightarrow> bool" where
  "engine_exp E \<longleftrightarrow>
     E 0 = Finite 1
     \<and> (\<forall>t. case E t of
              PlusInfinity \<Rightarrow> 2 ^ 1023 \<le> exp t
            | Finite e \<Rightarrow>
                0 \<le> e \<and> \<bar>e - exp t\<bar> \<le> exp t / 2 ^ 45 + 1 / 2 ^ 1074 \<and> exp t < 2 ^ 1025)"


text \<open>
  One such function is the exponential correctly rounded to binary64 with its exponent
  range: \<^verbatim>\<open>Infinity\<close> when the rounded value would be \<open>2 ^ 1024\<close> or more, a
  multiple of \<open>2 ^ - 1074\<close> below \<open>2 ^ - 1022\<close>, and \<^term>\<open>b64\<close> of the
  exponential in between. It is used for the evaluations at given inputs.
\<close>

definition exp_rounded :: "real \<Rightarrow> exp_result" where
  "exp_rounded t =
     (if 2 ^ 1024 \<le> b64 (exp t) then PlusInfinity
      else if exp t < 1 / 2 ^ 1022
        then Finite (real_of_int (rne (exp t * 2 ^ 1074)) / 2 ^ 1074)
      else Finite (b64 (exp t)))"

text \<open>
  Pillar 3 with the \<^verbatim>\<open>Math.exp\<close> of the engine. The sum \<^verbatim>\<open>1 + Infinity\<close>
  is \<^verbatim>\<open>Infinity\<close>, and \<^verbatim>\<open>10.5 / Infinity\<close> is 0.
\<close>

definition commitmentBonus_engine :: "(real \<Rightarrow> exp_result) \<Rightarrow> real \<Rightarrow> real" where
  "commitmentBonus_engine E completed =
     (case E (b64 (- b64 0.07 * b64 (completed - 45))) of
        PlusInfinity \<Rightarrow> 0
      | Finite e \<Rightarrow> b64 (b64 (maxBonus + 0.5) / b64 (1 + e)))"

definition totalScore_engine ::
    "(real \<Rightarrow> exp_result) \<Rightarrow> ProductivityScoreInput \<Rightarrow> real" where
  "totalScore_engine E input =
     min 100
       (b64 (b64 (promptnessScore_binary64
                    (getDelayMinutes_binary64 (scheduledStart input) (actualStart input))
                  + focusScore_binary64 (completedMinutes input) (durationMinutes input))
             + commitmentBonus_engine E (completedMinutes input)))"

definition calculateProductivityScore_engine ::
    "(real \<Rightarrow> exp_result) \<Rightarrow> ProductivityScoreInput \<Rightarrow> ScoreBreakdown" where
  "calculateProductivityScore_engine E input =
     (let delayMinutes = getDelayMinutes_binary64 (scheduledStart input) (actualStart input)
      in \<lparr>promptnessScore = Math_round (promptnessScore_binary64 delayMinutes),
          focusScore =
            Math_round (focusScore_binary64 (completedMinutes input) (durationMinutes input)),
          commitmentBonus = Math_round (commitmentBonus_engine E (completedMinutes input)),
          totalScore = Math_round (totalScore_engine E input)\<rparr>)"

section \<open>Facts about the rounding\<close>

subsection \<open>Nearest integers and powers of two\<close>

lemma rne_of_int [simp]: "rne (of_int n) = n"
  by (simp add: rne_def)

lemma rne_le: "r \<le> of_int n \<Longrightarrow> rne r \<le> n"
proof -
  assume h: "r \<le> of_int n"
  show ?thesis
  proof (cases "r = of_int n")
    case True
    then show ?thesis by simp
  next
    case False
    with h have "r < of_int n" by simp
    then have "\<lfloor>r\<rfloor> < n" by (simp add: floor_less_iff)
    then have "\<lfloor>r\<rfloor> + 1 \<le> n" by simp
    then show ?thesis by (simp add: rne_def)
  qed
qed

lemma rne_ge: "of_int n \<le> r \<Longrightarrow> n \<le> rne r"
proof -
  assume "of_int n \<le> r"
  then have "n \<le> \<lfloor>r\<rfloor>" by (simp add: le_floor_iff)
  then show ?thesis by (simp add: rne_def)
qed

lemma rne_mono: "r \<le> s \<Longrightarrow> rne r \<le> rne s"
proof -
  assume h: "r \<le> s"
  then have fl: "\<lfloor>r\<rfloor> \<le> \<lfloor>s\<rfloor>" by (rule floor_mono)
  show ?thesis
  proof (cases "\<lfloor>r\<rfloor> = \<lfloor>s\<rfloor>")
    case True
    with h show ?thesis by (auto simp: rne_def)
  next
    case False
    with fl have "\<lfloor>r\<rfloor> + 1 \<le> \<lfloor>s\<rfloor>" by simp
    moreover have "rne r \<le> \<lfloor>r\<rfloor> + 1" by (simp add: rne_def)
    moreover have "\<lfloor>s\<rfloor> \<le> rne s" by (simp add: rne_def)
    ultimately show ?thesis by linarith
  qed
qed

lemma rne_error: "\<bar>real_of_int (rne r) - r\<bar> \<le> 1 / 2"
  unfolding rne_def by (auto simp: abs_le_iff)

lemma pow2_pos [simp]: "0 < pow2 e"
  by (simp add: pow2_def)

lemma pow2_add: "pow2 (a + b) = pow2 a * pow2 b"
  by (simp add: pow2_def powr_add)

lemma pow2_diff: "pow2 (a - b) = pow2 a / pow2 b"
  by (simp add: pow2_def powr_diff)

lemma pow2_nat: "pow2 (int n) = 2 ^ n"
  by (simp add: pow2_def powr_realpow)

lemma pow2_0 [simp]: "pow2 0 = 1"
  by (simp add: pow2_def)

lemma pow2_numeral [simp]: "pow2 (numeral k) = 2 ^ numeral k"
  using pow2_nat [of "numeral k"] by simp

lemma pow2_neg_numeral [simp]: "pow2 (- numeral k) = 1 / 2 ^ numeral k"
  using pow2_diff [of 0 "numeral k"] by simp

lemma pow2_1 [simp]: "pow2 1 = 2"
  by (simp add: pow2_def)

lemma pow2_minus_1 [simp]: "pow2 (- 1) = 1 / 2"
  using pow2_diff [of 0 1] by simp

lemma pow2_mono: "a \<le> b \<Longrightarrow> pow2 a \<le> pow2 b"
  by (simp add: pow2_def)

lemma pow2_of_int: "0 \<le> e \<Longrightarrow> pow2 e = of_int (2 ^ nat e)"
  using pow2_nat [of "nat e"] by simp

subsection \<open>Binades\<close>

lemma binade_bounds:
  assumes "x \<noteq> 0"
  shows "pow2 (binade x) \<le> \<bar>x\<bar>" and "\<bar>x\<bar> < pow2 (binade x + 1)"
proof -
  have pos: "0 < \<bar>x\<bar>" using assms by simp
  have "of_int (binade x) \<le> log 2 \<bar>x\<bar>" by (simp add: binade_def)
  then show "pow2 (binade x) \<le> \<bar>x\<bar>"
    using pos by (simp add: le_log_iff pow2_def)
  have "log 2 \<bar>x\<bar> < of_int (binade x) + 1" by (simp add: binade_def)
  then show "\<bar>x\<bar> < pow2 (binade x + 1)"
    using pos by (simp add: log_less_iff pow2_def)
qed

lemma binade_eq:
  assumes "pow2 e \<le> \<bar>x\<bar>" and "\<bar>x\<bar> < pow2 (e + 1)"
  shows "binade x = e"
proof -
  have pos: "0 < \<bar>x\<bar>"
    using assms(1) pow2_pos [of e] by linarith
  have "of_int e \<le> log 2 \<bar>x\<bar>"
    using assms(1) pos by (simp add: le_log_iff pow2_def)
  moreover have "log 2 \<bar>x\<bar> < of_int e + 1"
    using assms(2) pos by (simp add: log_less_iff pow2_def)
  ultimately show ?thesis
    by (simp add: binade_def floor_eq_iff)
qed

lemma ulp_pos [simp]: "0 < ulp x"
  by (simp add: ulp_def)

subsection \<open>Rounding is odd, monotone and leaves binary64 values alone\<close>

text \<open>
  Within a known binade the rounding is the nearest multiple of the spacing of that
  binade.
\<close>

lemma b64_eval:
  assumes "pow2 e \<le> \<bar>x\<bar>" and "\<bar>x\<bar> < pow2 (e + 1)"
  shows "b64 x = sgn x * (of_int (rne (\<bar>x\<bar> / pow2 (e - 52))) * pow2 (e - 52))"
  by (simp add: b64_def ulp_def binade_eq [OF assms])

lemma b64_minus: "b64 (- x) = - b64 x"
  by (simp add: b64_def ulp_def binade_def sgn_minus)

lemma b64_0 [simp]: "b64 0 = 0"
  by (simp add: b64_def)

lemma b64_nonneg: "0 \<le> x \<Longrightarrow> 0 \<le> b64 x"
proof -
  assume h: "0 \<le> x"
  then have "0 \<le> \<bar>x\<bar> / ulp x"
    using ulp_pos [of x] by (simp add: divide_nonneg_pos)
  then have "0 \<le> rne (\<bar>x\<bar> / ulp x)" using rne_ge [of 0] by simp
  then have "0 \<le> real_of_int (rne (\<bar>x\<bar> / ulp x)) * ulp x"
    using ulp_pos [of x] by (simp add: mult_nonneg_nonneg less_imp_le)
  with h show ?thesis
    by (simp add: b64_def sgn_if)
qed

text \<open>Rounding does not step over a power of two, from either side.\<close>

lemma b64_le_pow2:
  assumes "0 < x" and "x \<le> pow2 k"
  shows "b64 x \<le> pow2 k"
proof -
  have nz: "x \<noteq> 0" using assms by simp
  have "pow2 (binade x) \<le> x" using binade_bounds(1) [OF nz] assms by simp
  with assms have "pow2 (binade x) \<le> pow2 k" by linarith
  then have ek: "binade x \<le> k"
    by (simp add: pow2_def)
  define n where "n = k - binade x + 52"
  have n0: "0 \<le> n" using ek by (simp add: n_def)
  have k: "pow2 k = pow2 n * ulp x"
    by (simp add: n_def ulp_def pow2_add [symmetric])
  have "x / ulp x \<le> pow2 n"
    using assms(2) unfolding k by (simp add: pos_divide_le_eq)
  then have "x / ulp x \<le> of_int (2 ^ nat n)"
    using pow2_of_int [OF n0] by simp
  then have "rne (x / ulp x) \<le> 2 ^ nat n" by (rule rne_le)
  then have "real_of_int (rne (x / ulp x)) \<le> of_int (2 ^ nat n)"
    by (simp only: of_int_le_iff)
  then have "real_of_int (rne (x / ulp x)) \<le> pow2 n"
    using pow2_of_int [OF n0] by simp
  then have "real_of_int (rne (x / ulp x)) * ulp x \<le> pow2 n * ulp x"
    by (simp add: mult_right_mono)
  with assms(1) show ?thesis
    unfolding k by (simp add: b64_def)
qed

lemma b64_ge_binade:
  assumes "0 < x"
  shows "pow2 (binade x) \<le> b64 x"
proof -
  have nz: "x \<noteq> 0" using assms by simp
  have p: "pow2 (binade x) = pow2 52 * ulp x"
    by (simp only: ulp_def pow2_add [symmetric]) simp
  have "pow2 52 * ulp x \<le> x"
    using binade_bounds(1) [OF nz] assms unfolding p by simp
  then have "of_int (2 ^ 52) \<le> x / ulp x"
    by (simp add: pos_le_divide_eq)
  then have "2 ^ 52 \<le> rne (x / ulp x)" by (rule rne_ge)
  then have "real_of_int (2 ^ 52) \<le> real_of_int (rne (x / ulp x))"
    by (simp only: of_int_le_iff)
  then have "pow2 52 * ulp x \<le> real_of_int (rne (x / ulp x)) * ulp x"
    by (simp add: mult_right_mono)
  with assms show ?thesis
    unfolding p by (simp add: b64_def)
qed

lemma binade_mono:
  assumes "0 < x" and "x \<le> y"
  shows "binade x \<le> binade y"
  unfolding binade_def using assms by (intro floor_mono) simp

lemma b64_mono_pos:
  assumes "0 < x" and "x \<le> y"
  shows "b64 x \<le> b64 y"
proof (cases "binade x = binade y")
  case True
  then have u: "ulp x = ulp y" by (simp add: ulp_def)
  have "x / ulp y \<le> y / ulp y"
    using assms(2) by (intro divide_right_mono) (simp_all add: less_imp_le)
  then have "rne (x / ulp y) \<le> rne (y / ulp y)" by (rule rne_mono)
  then have "real_of_int (rne (x / ulp y)) \<le> real_of_int (rne (y / ulp y))"
    by (simp only: of_int_le_iff)
  then have "real_of_int (rne (x / ulp y)) * ulp y \<le> real_of_int (rne (y / ulp y)) * ulp y"
    by (simp add: mult_right_mono)
  with assms show ?thesis
    by (simp add: b64_def u)
next
  case False
  with binade_mono [OF assms] have lt: "binade x + 1 \<le> binade y" by simp
  have nz: "x \<noteq> 0" using assms by simp
  have "x \<le> pow2 (binade x + 1)"
    using binade_bounds(2) [OF nz] assms by simp
  then have "b64 x \<le> pow2 (binade x + 1)"
    by (rule b64_le_pow2 [OF assms(1)])
  also have "\<dots> \<le> pow2 (binade y)"
    using lt by (rule pow2_mono)
  also have "\<dots> \<le> b64 y"
    using assms by (intro b64_ge_binade) simp
  finally show ?thesis .
qed

lemma b64_mono:
  assumes "x \<le> y"
  shows "b64 x \<le> b64 y"
proof -
  consider "0 < x" | "x \<le> 0" "0 \<le> y" | "y < 0" by linarith
  then show ?thesis
  proof cases
    case 1
    then show ?thesis using assms by (rule b64_mono_pos)
  next
    case 2
    then have "0 \<le> b64 (- x)" and "0 \<le> b64 y"
      by (simp_all add: b64_nonneg)
    then show ?thesis by (simp add: b64_minus)
  next
    case 3
    then have "b64 (- y) \<le> b64 (- x)"
      using assms by (intro b64_mono_pos) simp_all
    then show ?thesis by (simp add: b64_minus)
  qed
qed

lemma b64_pos: "0 < x \<Longrightarrow> 0 < b64 x"
  using b64_ge_binade [of x] pow2_pos [of "binade x"] by linarith

lemma b64_neg: "x < 0 \<Longrightarrow> b64 x < 0"
  using b64_pos [of "- x"] by (simp add: b64_minus)

text \<open>
  An integer of magnitude below \<open>2 ^ 53\<close>, scaled by a power of two, is a binary64
  value, and rounding returns it.
\<close>

lemma b64_representable:
  assumes "\<bar>m\<bar> < 2 ^ 53"
  shows "b64 (of_int m * pow2 e) = of_int m * pow2 e"
proof (cases "m = 0")
  case True
  then show ?thesis by simp
next
  case False
  define x where "x = real_of_int m * pow2 e"
  have nz: "x \<noteq> 0" using False by (simp add: x_def less_imp_neq [OF pow2_pos, symmetric])
  have ax: "\<bar>x\<bar> = real_of_int \<bar>m\<bar> * pow2 e"
    by (simp add: x_def abs_mult abs_of_pos)
  have "real_of_int \<bar>m\<bar> < real_of_int (2 ^ 53)"
    using assms by (simp only: of_int_less_iff)
  then have "\<bar>x\<bar> < pow2 53 * pow2 e"
    unfolding ax by simp
  then have "\<bar>x\<bar> < pow2 (e + 53)"
    by (simp add: pow2_add mult.commute)
  with binade_bounds(1) [OF nz] have "pow2 (binade x) < pow2 (e + 53)" by linarith
  then have "binade x < e + 53" by (simp add: pow2_def)
  define n where "n = e + 52 - binade x"
  have n0: "0 \<le> n" using \<open>binade x < e + 53\<close> by (simp add: n_def)
  have "pow2 e = pow2 n * ulp x"
    by (simp add: n_def ulp_def pow2_add [symmetric])
  then have "\<bar>x\<bar> / ulp x = real_of_int \<bar>m\<bar> * pow2 n"
    unfolding ax using ulp_pos [of x] by (simp add: less_imp_neq [symmetric])
  also have "\<dots> = real_of_int (\<bar>m\<bar> * 2 ^ nat n)"
    using pow2_of_int [OF n0] by simp
  finally have q: "\<bar>x\<bar> / ulp x = real_of_int (\<bar>m\<bar> * 2 ^ nat n)" .
  have "real_of_int (rne (\<bar>x\<bar> / ulp x)) = \<bar>x\<bar> / ulp x"
    unfolding q by (simp only: rne_of_int)
  then have "real_of_int (rne (\<bar>x\<bar> / ulp x)) * ulp x = \<bar>x\<bar>"
    using ulp_pos [of x] by (simp add: less_imp_neq [symmetric])
  then have "b64 x = sgn x * \<bar>x\<bar>" by (simp add: b64_def)
  then show ?thesis by (simp add: x_def [symmetric] sgn_mult_abs)
qed

lemma b64_int: "\<bar>m\<bar> < 2 ^ 53 \<Longrightarrow> b64 (of_int m) = of_int m"
  using b64_representable [of m 0] by simp

lemma b64_pow2: "b64 (pow2 e) = pow2 e"
  using b64_representable [of 1 e] by simp

lemma b64_int_le: "\<bar>m\<bar> \<le> 2 ^ 53 \<Longrightarrow> b64 (of_int m) = of_int m"
proof -
  assume h: "\<bar>m\<bar> \<le> 2 ^ 53"
  consider "\<bar>m\<bar> < 2 ^ 53" | "m = 2 ^ 53" | "m = - (2 ^ 53)"
    using h by linarith
  then show ?thesis
  proof cases
    case 1
    then show ?thesis by (rule b64_int)
  next
    case 2
    have "b64 (pow2 53) = pow2 53" by (rule b64_pow2)
    then show ?thesis by (simp add: 2)
  next
    case 3
    have "b64 (- pow2 53) = - pow2 53" by (simp only: b64_minus b64_pow2)
    then show ?thesis by (simp add: 3)
  qed
qed

lemma b64_values:
  "b64 1 = 1" "b64 2 = 2" "b64 5 = 5" "b64 38 = 38" "b64 50 = 50" "b64 60 = 60" "b64 90 = 90"
  "b64 100 = 100" "b64 555 = 555" "b64 300000 = 300000"
  "b64 (1 / 2) = 1 / 2" "b64 (21 / 2) = 21 / 2" "b64 (21 / 4) = 21 / 4"
  "b64 (71 / 1024) = 71 / 1024" "b64 (201 / 2) = 201 / 2" "b64 (381 / 4) = 381 / 4"
  "b64 (675 / 8) = 675 / 8" "b64 (717 / 8) = 717 / 8"
  using b64_int [of 1] b64_int [of 2] b64_int [of 5] b64_int [of 38] b64_int [of 50]
    b64_int [of 60]
    b64_int [of 90] b64_int [of 100] b64_int [of 555] b64_int [of 300000]
    b64_representable [of 1 "- 1"]
    b64_representable [of 21 "- 1"] b64_representable [of 21 "- 2"]
    b64_representable [of 71 "- 10"] b64_representable [of 201 "- 1"]
    b64_representable [of 381 "- 2"] b64_representable [of 675 "- 3"]
    b64_representable [of 717 "- 3"]
  by simp_all

text \<open>The relative error of the rounding is at most \<open>2 ^ - 53\<close>.\<close>

lemma b64_error: "\<bar>b64 x - x\<bar> \<le> \<bar>x\<bar> / 2 ^ 53"
proof (cases "x = 0")
  case True
  then show ?thesis by simp
next
  case False
  have u: "pow2 52 * ulp x \<le> \<bar>x\<bar>"
    using binade_bounds(1) [OF False]
    by (simp only: ulp_def pow2_add [symmetric]) simp
  have "b64 x - x = sgn x * (real_of_int (rne (\<bar>x\<bar> / ulp x)) * ulp x - \<bar>x\<bar>)"
    by (simp add: b64_def algebra_simps sgn_mult_abs [simplified mult.commute])
  also have "\<dots> = sgn x * ((real_of_int (rne (\<bar>x\<bar> / ulp x)) - \<bar>x\<bar> / ulp x) * ulp x)"
    using ulp_pos [of x] by (simp add: algebra_simps less_imp_neq [symmetric])
  finally have "\<bar>b64 x - x\<bar>
      = \<bar>real_of_int (rne (\<bar>x\<bar> / ulp x)) - \<bar>x\<bar> / ulp x\<bar> * ulp x"
    using False ulp_pos [of x] by (simp add: abs_mult abs_sgn_eq less_imp_le)
  also have "\<dots> \<le> 1 / 2 * ulp x"
    using rne_error [of "\<bar>x\<bar> / ulp x"] ulp_pos [of x]
    by (intro mult_right_mono) (simp_all add: less_imp_le)
  also have "\<dots> \<le> \<bar>x\<bar> / 2 ^ 53"
    using u by simp
  finally show ?thesis .
qed

subsection \<open>Sums just above 1\<close>

text \<open>
  A sum \<open>1 + y\<close> with \<open>0 \<le> y \<le> 2 ^ - 53\<close> rounds to 1: the binary64 values next to 1
  are \<open>1\<close> and \<open>1 + 2 ^ - 52\<close>, and at the midpoint the even significand, that of 1,
  wins.
\<close>

lemma b64_one_plus_tiny:
  assumes "0 \<le> y" and "y \<le> pow2 (- 53)"
  shows "b64 (1 + y) = 1"
proof -
  have x1: "pow2 0 \<le> \<bar>1 + y\<bar>" using assms by simp
  have x2: "\<bar>1 + y\<bar> < pow2 (0 + 1)" using assms by simp
  have fl: "\<lfloor>(1 + y) * 2 ^ 52\<rfloor> = 2 ^ 52"
    using assms by (simp add: floor_eq_iff)
  have fr: "(1 + y) * 2 ^ 52 - of_int \<lfloor>(1 + y) * 2 ^ 52\<rfloor> \<le> 1 / 2"
    unfolding fl using assms by simp
  have "rne ((1 + y) * 2 ^ 52) = 2 ^ 52"
    using fr unfolding rne_def fl by simp
  then show ?thesis
    using assms by (simp add: b64_eval [OF x1 x2])
qed

subsection \<open>The exponential\<close>

lemma exp_minus_38: "exp (- 38 :: real) \<le> pow2 (- 53)"
proof -
  have "(13 / 8 :: real) \<le> exp (1 / 2)"
    using exp_lower_Taylor_quadratic [of "1 / 2 :: real"] by (simp add: power2_eq_square)
  then have "(13 / 8 :: real) ^ 76 \<le> exp (1 / 2) ^ 76"
    by (intro power_mono) simp_all
  also have "\<dots> = exp (of_nat 76 * (1 / 2 :: real))"
    by (simp only: exp_of_nat_mult)
  also have "\<dots> = exp (38 :: real)" by simp
  finally have "(13 / 8 :: real) ^ 76 \<le> exp 38" .
  moreover have "(2 :: real) ^ 53 * 8 ^ 76 \<le> 13 ^ 76"
    by simp
  then have "(2 :: real) ^ 53 \<le> (13 / 8) ^ 76"
    by (simp add: power_divide pos_le_divide_eq)
  ultimately have "(2 :: real) ^ 53 \<le> exp 38"
    by linarith
  then have "inverse (exp (38 :: real)) \<le> inverse (2 ^ 53)"
    by (intro le_imp_inverse_le) simp_all
  then show ?thesis
    by (simp add: exp_minus inverse_eq_divide)
qed

lemma Math_exp_0: "Math_exp 0 = 1"
  by (simp add: Math_exp_def b64_values)

lemma Math_exp_pos: "0 < Math_exp x"
  unfolding Math_exp_def by (rule b64_pos) simp

lemma Math_exp_tiny:
  assumes "x \<le> - 38"
  shows "Math_exp x \<le> pow2 (- 53)"
proof -
  have "exp x \<le> exp (- 38)" using assms by simp
  then have "exp x \<le> pow2 (- 53)" using exp_minus_38 by linarith
  then show ?thesis
    unfolding Math_exp_def by (intro b64_le_pow2) simp_all
qed

section \<open>The delay in minutes\<close>

lemma getDelayMinutes_div: "getDelayMinutes s a = (a - s) div 60000"
proof -
  have "\<lfloor>real_of_int (a - s) / real_of_int 60000\<rfloor> = (a - s) div 60000"
    by (rule floor_divide_of_int_eq)
  then show ?thesis
    by (simp add: getDelayMinutes_def)
qed

lemma getDelayMinutes_neg: "(getDelayMinutes s a < 0) = (a < s)"
  unfolding getDelayMinutes_div by (simp add: neg_imp_zdiv_neg_iff pos_imp_zdiv_neg_iff)

text \<open>
  For a difference of magnitude at most \<open>2 ^ 53\<close> the difference is a binary64 value,
  and the floor of the rounded quotient is the floor of the exact one: the quotient is
  at least \<open>1 / 60000\<close> below the next integer, and the rounding moves it by less.
\<close>

lemma floor_b64_quotient:
  assumes "\<bar>x\<bar> \<le> 2 ^ 53"
  shows "\<lfloor>b64 (b64 (real_of_int x) / 60000)\<rfloor> = x div 60000"
proof -
  define n where "n = x div 60000"
  define q where "q = real_of_int x / 60000"
  have lo: "60000 * n \<le> x" and hi: "x \<le> 60000 * n + 59999"
    unfolding n_def by linarith+
  have nb: "\<bar>n\<bar> < 2 ^ 38"
    using assms lo hi by (simp add: abs_le_iff abs_less_iff)
  have x: "b64 (real_of_int x) = real_of_int x"
    using assms by (rule b64_int_le)
  have "real_of_int (60000 * n) \<le> real_of_int x"
    using lo by (simp only: of_int_le_iff)
  then have "real_of_int n \<le> q"
    by (simp add: q_def)
  then have "b64 (real_of_int n) \<le> b64 q" by (rule b64_mono)
  moreover have "b64 (real_of_int n) = real_of_int n"
    using nb by (intro b64_int) (simp add: abs_less_iff)
  ultimately have ge: "real_of_int n \<le> b64 q" by simp
  have err: "\<bar>b64 q - q\<bar> \<le> \<bar>q\<bar> / 2 ^ 53" by (rule b64_error)
  have "real_of_int x \<le> real_of_int (60000 * n + 59999)"
    using hi by (simp only: of_int_le_iff)
  then have qh: "q \<le> real_of_int n + 59999 / 60000"
    by (simp add: q_def)
  consider "\<bar>x\<bar> < 2 ^ 53" | "x = 2 ^ 53" | "x = - (2 ^ 53)"
    using assms by linarith
  then have lt: "b64 q < real_of_int n + 1"
  proof cases
    case 1
    then have "real_of_int \<bar>x\<bar> < real_of_int (2 ^ 53)"
      by (simp only: of_int_less_iff)
    then have "\<bar>q\<bar> * 60000 < 2 ^ 53"
      by (simp add: q_def)
    then have "\<bar>q\<bar> / 2 ^ 53 < 1 / 60000"
      by (simp add: field_simps)
    with err qh show ?thesis by linarith
  next
    case 2
    then have "\<bar>q\<bar> / 2 ^ 53 \<le> 1 / 60000" and "q \<le> real_of_int n + 992 / 60000"
      by (simp_all add: q_def n_def)
    with err show ?thesis by linarith
  next
    case 3
    then have "\<bar>q\<bar> / 2 ^ 53 \<le> 1 / 60000" and "q \<le> real_of_int n + 59008 / 60000"
      by (simp_all add: q_def n_def)
    with err show ?thesis by linarith
  qed
  from ge lt have "\<lfloor>b64 q\<rfloor> = n"
    by (simp add: floor_eq_iff)
  then show ?thesis
    by (simp add: x q_def n_def)
qed

lemma getDelayMinutes_binary64_exact:
  assumes "\<bar>a - s\<bar> \<le> 2 ^ 53"
  shows "getDelayMinutes_binary64 s a = getDelayMinutes s a"
proof -
  have "getDelayMinutes_binary64 s a = \<lfloor>b64 (b64 (real_of_int (a - s)) / 60000)\<rfloor>"
    by (simp add: getDelayMinutes_binary64_def)
  also have "\<dots> = (a - s) div 60000"
    by (rule floor_b64_quotient [OF assms])
  also have "\<dots> = getDelayMinutes s a"
    by (simp add: getDelayMinutes_div)
  finally show ?thesis .
qed

lemma getDelayMinutes_binary64_same [simp]: "getDelayMinutes_binary64 t t = 0"
  by (simp add: getDelayMinutes_binary64_def)

lemma getDelayMinutes_binary64_neg: "(getDelayMinutes_binary64 s a < 0) = (a < s)"
proof (cases "a < s")
  case True
  then have "real_of_int a - real_of_int s < 0" by simp
  then have "b64 (real_of_int a - real_of_int s) < 0" by (rule b64_neg)
  then have "b64 (real_of_int a - real_of_int s) / 60000 < 0" by simp
  then have "b64 (b64 (real_of_int a - real_of_int s) / 60000) < 0" by (rule b64_neg)
  then have "getDelayMinutes_binary64 s a < 0"
    unfolding getDelayMinutes_binary64_def Let_def by (simp add: floor_less_iff)
  with True show ?thesis by simp
next
  case False
  then have "0 \<le> real_of_int a - real_of_int s" by simp
  then have "0 \<le> b64 (real_of_int a - real_of_int s)" by (rule b64_nonneg)
  then have "0 \<le> b64 (real_of_int a - real_of_int s) / 60000" by simp
  then have "0 \<le> b64 (b64 (real_of_int a - real_of_int s) / 60000)" by (rule b64_nonneg)
  then have "0 \<le> getDelayMinutes_binary64 s a"
    unfolding getDelayMinutes_binary64_def Let_def by simp
  with False show ?thesis by simp
qed

lemma getDelayMinutes_binary64_mono:
  assumes "a1 \<le> a2"
  shows "getDelayMinutes_binary64 s a1 \<le> getDelayMinutes_binary64 s a2"
proof -
  have "real_of_int a1 - real_of_int s \<le> real_of_int a2 - real_of_int s"
    using assms by simp
  then have "b64 (real_of_int a1 - real_of_int s) \<le> b64 (real_of_int a2 - real_of_int s)"
    by (rule b64_mono)
  then have "b64 (real_of_int a1 - real_of_int s) / 60000
      \<le> b64 (real_of_int a2 - real_of_int s) / 60000"
    by simp
  then have "b64 (b64 (real_of_int a1 - real_of_int s) / 60000)
      \<le> b64 (b64 (real_of_int a2 - real_of_int s) / 60000)"
    by (rule b64_mono)
  then show ?thesis
    unfolding getDelayMinutes_binary64_def Let_def by (simp add: floor_mono)
qed

text \<open>
  The time value of a date is of magnitude at most \<open>8.64 * 10 ^ 15\<close>, so two dates are
  up to \<open>1.728 * 10 ^ 16\<close> milliseconds apart, which is more than \<open>2 ^ 53\<close>. Then
  the difference may be rounded to an even integer and the quotient to a multiple of
  \<open>2 ^ - 15\<close>; the delay as computed is the floor or the integer above it.
\<close>

lemma getDelayMinutes_binary64_dates:
  assumes "\<bar>s\<bar> \<le> 8640000000000000" and "\<bar>a\<bar> \<le> 8640000000000000"
  shows "(a - s) div 60000 \<le> getDelayMinutes_binary64 s a"
    and "getDelayMinutes_binary64 s a \<le> (a - s) div 60000 + 1"
proof -
  define d where "d = a - s"
  define n where "n = d div 60000"
  define m where "m = min (n + 1) 288000000000"
  define r where "r = b64 (b64 (real_of_int d) / 60000)"
  have g: "getDelayMinutes_binary64 s a = \<lfloor>r\<rfloor>"
    by (simp add: getDelayMinutes_binary64_def r_def d_def)
  have db: "\<bar>d\<bar> \<le> 17280000000000000"
    using assms unfolding d_def by linarith
  have lo: "60000 * n \<le> d" and hi: "d \<le> 60000 * n + 59999"
    unfolding n_def by linarith+
  have nb: "\<bar>n\<bar> \<le> 288000000000"
    using db lo hi by linarith
  have mb: "\<bar>m\<bar> \<le> 288000000000"
    using nb unfolding m_def by linarith
  have "d \<le> 60000 * (n + 1)" using hi by (simp add: distrib_left)
  moreover have "d \<le> 60000 * 288000000000" using db by linarith
  ultimately have dm: "d \<le> 60000 * m"
    unfolding m_def by (cases "n + 1 \<le> 288000000000") (simp_all only: min_absorb1 min_absorb2)
  have rep: "b64 (real_of_int (60000 * k)) = real_of_int (60000 * k)"
    if "\<bar>k\<bar> \<le> 288000000000" for k
  proof -
    have "\<bar>30000 * k\<bar> < 2 ^ 53" using that by simp
    then have "b64 (real_of_int (30000 * k) * pow2 1) = real_of_int (30000 * k) * pow2 1"
      by (rule b64_representable)
    then show ?thesis by simp
  qed
  have int: "b64 (real_of_int k) = real_of_int k" if "\<bar>k\<bar> \<le> 288000000000" for k
    using that by (intro b64_int) simp
  have "real_of_int (60000 * n) \<le> real_of_int d"
    using lo by (simp only: of_int_le_iff)
  then have "b64 (real_of_int (60000 * n)) \<le> b64 (real_of_int d)" by (rule b64_mono)
  then have "real_of_int (60000 * n) \<le> b64 (real_of_int d)"
    by (simp only: rep [OF nb])
  then have "real_of_int n \<le> b64 (real_of_int d) / 60000" by simp
  then have "b64 (real_of_int n) \<le> r" unfolding r_def by (rule b64_mono)
  then have "real_of_int n \<le> r" by (simp only: int [OF nb])
  then have "n \<le> \<lfloor>r\<rfloor>" by (simp add: le_floor_iff)
  then show "(a - s) div 60000 \<le> getDelayMinutes_binary64 s a"
    by (simp only: g n_def d_def)
  have "real_of_int d \<le> real_of_int (60000 * m)"
    using dm by (simp only: of_int_le_iff)
  then have "b64 (real_of_int d) \<le> b64 (real_of_int (60000 * m))" by (rule b64_mono)
  then have "b64 (real_of_int d) \<le> real_of_int (60000 * m)"
    by (simp only: rep [OF mb])
  then have "b64 (real_of_int d) / 60000 \<le> real_of_int m" by simp
  then have "r \<le> b64 (real_of_int m)" unfolding r_def by (rule b64_mono)
  then have "r \<le> real_of_int m" by (simp only: int [OF mb])
  then have "\<lfloor>r\<rfloor> \<le> m" by (simp add: floor_le_iff)
  moreover have "m \<le> n + 1" unfolding m_def by simp
  ultimately have "\<lfloor>r\<rfloor> \<le> n + 1" by linarith
  then show "getDelayMinutes_binary64 s a \<le> (a - s) div 60000 + 1"
    by (simp only: g n_def d_def)
qed

text \<open>
  A delay of \<open>- 2\<close> or less is a start more than a whole minute early, however far
  apart the instants are: the roundings are monotone, and \<open>- 60001\<close>, \<open>- 60000\<close>
  and \<open>- 65537 / 2 ^ 16\<close>, which lies between \<open>- 60001 / 60000\<close> and \<open>- 1\<close>,
  are binary64 values.
\<close>

lemma getDelayMinutes_binary64_le_minus_2:
  "(getDelayMinutes_binary64 s a \<le> - 2) = (60000 < s - a)"
proof (cases "60000 < s - a")
  case True
  then have "real_of_int (a - s) \<le> real_of_int (- 60001)"
    by (simp only: of_int_le_iff)
  then have "real_of_int a - real_of_int s \<le> real_of_int (- 60001)" by simp
  then have "b64 (real_of_int a - real_of_int s) \<le> b64 (real_of_int (- 60001))"
    by (rule b64_mono)
  moreover have "b64 (real_of_int (- 60001)) = real_of_int (- 60001)"
    by (rule b64_int) simp
  ultimately have "b64 (real_of_int a - real_of_int s) \<le> - 60001" by simp
  then have "b64 (real_of_int a - real_of_int s) / 60000 \<le> real_of_int (- 65537) * pow2 (- 16)"
    by simp
  then have "b64 (b64 (real_of_int a - real_of_int s) / 60000)
      \<le> b64 (real_of_int (- 65537) * pow2 (- 16))"
    by (rule b64_mono)
  moreover have "b64 (real_of_int (- 65537) * pow2 (- 16)) = real_of_int (- 65537) * pow2 (- 16)"
    by (rule b64_representable) simp
  ultimately have "b64 (b64 (real_of_int a - real_of_int s) / 60000) < - 1" by simp
  then have "getDelayMinutes_binary64 s a \<le> - 2"
    unfolding getDelayMinutes_binary64_def Let_def by (simp add: floor_le_iff)
  with True show ?thesis by simp
next
  case False
  then have "real_of_int (- 60000) \<le> real_of_int (a - s)"
    by (simp only: of_int_le_iff)
  then have "real_of_int (- 60000) \<le> real_of_int a - real_of_int s" by simp
  then have "b64 (real_of_int (- 60000)) \<le> b64 (real_of_int a - real_of_int s)"
    by (rule b64_mono)
  moreover have "b64 (real_of_int (- 60000)) = real_of_int (- 60000)"
    by (rule b64_int) simp
  ultimately have "- 60000 \<le> b64 (real_of_int a - real_of_int s)" by simp
  then have "real_of_int (- 1) \<le> b64 (real_of_int a - real_of_int s) / 60000" by simp
  then have "b64 (real_of_int (- 1)) \<le> b64 (b64 (real_of_int a - real_of_int s) / 60000)"
    by (rule b64_mono)
  moreover have "b64 (real_of_int (- 1)) = real_of_int (- 1)"
    by (rule b64_int) simp
  ultimately have "- 1 \<le> b64 (b64 (real_of_int a - real_of_int s) / 60000)" by simp
  then have "- 1 \<le> getDelayMinutes_binary64 s a"
    unfolding getDelayMinutes_binary64_def Let_def by (simp add: le_floor_iff)
  with False show ?thesis by simp
qed

text \<open>
  From the first instant a date can hold to the last but one: the difference
  17279999999999999 is odd and rounds to 17280000000000000, which is 288000000000
  minutes, while the floor of the exact quotient is 287999999999.
\<close>

lemma b64_17279999999999999: "b64 17279999999999999 = 17280000000000000"
proof -
  have a: "pow2 53 \<le> \<bar>17279999999999999 :: real\<bar>"
    and b: "\<bar>17279999999999999 :: real\<bar> < pow2 (53 + 1)"
    by simp_all
  show ?thesis
    unfolding b64_eval [OF a b] by (simp add: rne_def)
qed

lemma getDelayMinutes_binary64_extreme:
  "getDelayMinutes_binary64 (- 8640000000000000) 8639999999999999 = 288000000000"
proof -
  have "b64 (real_of_int 288000000000) = real_of_int 288000000000"
    by (rule b64_int) simp
  then have "b64 288000000000 = 288000000000" by simp
  then show ?thesis
    by (simp add: getDelayMinutes_binary64_def b64_17279999999999999)
qed

lemma getDelayMinutes_extreme:
  "getDelayMinutes (- 8640000000000000) 8639999999999999 = 287999999999"
  by (simp add: getDelayMinutes_div)

text \<open>
  C6, as amended. For instants at most \<open>2 ^ 53\<close> milliseconds, some 285 000 years,
  apart, the delay as computed is the floor of the quotient of the difference by 60000,
  the greatest integer not above it, so the rounding is toward minus infinity. For two
  dates farther apart the delay as computed is that floor or one more. For every pair
  of instants the delay is negative exactly when the actual start is before the
  scheduled start, by any amount, even one millisecond, and it is \<open>- 2\<close> or less
  exactly when the start is more than a whole minute early. In exact arithmetic the
  delay is the floor for every pair.
\<close>

theorem getDelayMinutes_binary64_floor:
  "(\<bar>a - s\<bar> \<le> 2 ^ 53 \<longrightarrow>
      getDelayMinutes_binary64 s a = \<lfloor>real_of_int (a - s) / 60000\<rfloor>
      \<and> real_of_int (getDelayMinutes_binary64 s a) \<le> real_of_int (a - s) / 60000
      \<and> real_of_int (a - s) / 60000 < real_of_int (getDelayMinutes_binary64 s a) + 1)
   \<and> (\<bar>s\<bar> \<le> 8640000000000000 \<and> \<bar>a\<bar> \<le> 8640000000000000 \<longrightarrow>
      \<lfloor>real_of_int (a - s) / 60000\<rfloor> \<le> getDelayMinutes_binary64 s a
      \<and> getDelayMinutes_binary64 s a \<le> \<lfloor>real_of_int (a - s) / 60000\<rfloor> + 1)
   \<and> (getDelayMinutes_binary64 s a < 0) = (a < s)
   \<and> (getDelayMinutes_binary64 s a \<le> - 2) = (60000 < s - a)
   \<and> getDelayMinutes s a = \<lfloor>real_of_int (a - s) / 60000\<rfloor>
   \<and> (getDelayMinutes s a < 0) = (a < s)
   \<and> (getDelayMinutes s a \<le> - 2) = (60000 < s - a)"
proof -
  have f: "getDelayMinutes s a = \<lfloor>real_of_int (a - s) / 60000\<rfloor>"
    by (simp add: getDelayMinutes_def)
  have m: "(getDelayMinutes s a \<le> - 2) = (60000 < s - a)"
    unfolding getDelayMinutes_div by linarith
  have b: "real_of_int (getDelayMinutes s a) \<le> real_of_int (a - s) / 60000
      \<and> real_of_int (a - s) / 60000 < real_of_int (getDelayMinutes s a) + 1"
    unfolding f by linarith
  have d: "\<lfloor>real_of_int (a - s) / 60000\<rfloor> = (a - s) div 60000"
    using f by (simp only: getDelayMinutes_div)
  have "\<lfloor>real_of_int (a - s) / 60000\<rfloor> \<le> getDelayMinutes_binary64 s a
      \<and> getDelayMinutes_binary64 s a \<le> \<lfloor>real_of_int (a - s) / 60000\<rfloor> + 1"
    if "\<bar>s\<bar> \<le> 8640000000000000 \<and> \<bar>a\<bar> \<le> 8640000000000000"
    unfolding d using that getDelayMinutes_binary64_dates [of s a] by blast
  moreover have "getDelayMinutes_binary64 s a = \<lfloor>real_of_int (a - s) / 60000\<rfloor>
      \<and> real_of_int (getDelayMinutes_binary64 s a) \<le> real_of_int (a - s) / 60000
      \<and> real_of_int (a - s) / 60000 < real_of_int (getDelayMinutes_binary64 s a) + 1"
    if "\<bar>a - s\<bar> \<le> 2 ^ 53"
    unfolding getDelayMinutes_binary64_exact [OF that] using f b by blast
  ultimately show ?thesis
    using f m getDelayMinutes_neg getDelayMinutes_binary64_neg
      getDelayMinutes_binary64_le_minus_2
    by blast
qed

theorem getDelayMinutes_binary64_floor_witness:
  "\<bar>59999 - 60000 :: int\<bar> \<le> 2 ^ 53
   \<and> \<bar>60000 :: int\<bar> \<le> 8640000000000000 \<and> \<bar>59999 :: int\<bar> \<le> 8640000000000000
   \<and> getDelayMinutes_binary64 60000 59999 = - 1
   \<and> getDelayMinutes_binary64 0 (- 60001) = - 2
   \<and> getDelayMinutes_binary64 0 59999 = 0
   \<and> \<bar>- 8640000000000000 :: int\<bar> \<le> 8640000000000000
   \<and> \<bar>8639999999999999 :: int\<bar> \<le> 8640000000000000
   \<and> 287999999999 \<le> getDelayMinutes_binary64 (- 8640000000000000) 8639999999999999
   \<and> getDelayMinutes_binary64 (- 8640000000000000) 8639999999999999 \<le> 288000000000"
  using getDelayMinutes_binary64_floor [of 59999 60000]
    getDelayMinutes_binary64_floor [of "- 60001" 0]
    getDelayMinutes_binary64_floor [of 59999 0]
    getDelayMinutes_binary64_floor [of 8639999999999999 "- 8640000000000000"]
  by simp

text \<open>
  One millisecond early is a negative delay, though it is not more than a whole minute
  early. And from the first instant a date can hold to the last but one the delay as
  computed is not the floor.
\<close>

theorem getDelayMinutes_binary64_not_floor:
  "(getDelayMinutes_binary64 60000 59999 < 0) \<noteq> ((60000::int) < 60000 - 59999)
   \<and> (getDelayMinutes 60000 59999 < 0) \<noteq> ((60000::int) < 60000 - 59999)
   \<and> getDelayMinutes_binary64 (- 8640000000000000) 8639999999999999 = 288000000000
   \<and> \<lfloor>real_of_int (8639999999999999 - (- 8640000000000000)) / 60000\<rfloor> = 287999999999
   \<and> getDelayMinutes_binary64 (- 8640000000000000) 8639999999999999
       \<noteq> \<lfloor>real_of_int (8639999999999999 - (- 8640000000000000)) / 60000\<rfloor>"
proof -
  have "\<lfloor>real_of_int (8639999999999999 - (- 8640000000000000)) / 60000\<rfloor> = 287999999999"
    using getDelayMinutes_extreme by (simp add: getDelayMinutes_def)
  then show ?thesis
    by (simp add: getDelayMinutes_neg getDelayMinutes_binary64_neg
        getDelayMinutes_binary64_extreme)
qed

text \<open>
  C8. For a fixed scheduled start, a later actual start never gives a smaller delay,
  in exact arithmetic and in binary64.
\<close>

theorem getDelayMinutes_mono:
  "a1 \<le> a2 \<Longrightarrow>
     getDelayMinutes s a1 \<le> getDelayMinutes s a2
     \<and> getDelayMinutes_binary64 s a1 \<le> getDelayMinutes_binary64 s a2"
proof
  assume le: "a1 \<le> a2"
  then show "getDelayMinutes s a1 \<le> getDelayMinutes s a2"
    unfolding getDelayMinutes_div by (intro zdiv_mono1) simp_all
  from le show "getDelayMinutes_binary64 s a1 \<le> getDelayMinutes_binary64 s a2"
    by (rule getDelayMinutes_binary64_mono)
qed

theorem getDelayMinutes_mono_witness:
  "(59999::int) \<le> 60000
   \<and> getDelayMinutes 0 59999 \<le> getDelayMinutes 0 60000
   \<and> getDelayMinutes_binary64 0 59999 \<le> getDelayMinutes_binary64 0 60000
   \<and> getDelayMinutes 0 59999 = 0 \<and> getDelayMinutes 0 60000 = 1"
  using getDelayMinutes_mono [of 59999 60000 0] by (simp add: getDelayMinutes_def)

section \<open>The completion percentage\<close>

lemma Math_round_eq: "Math_round x = round x"
  by (simp add: Math_round_def round_def)

lemma Math_round_nonneg: "0 \<le> x \<Longrightarrow> 0 \<le> Math_round x"
  by (simp add: Math_round_def)

lemma Math_round_le: "x < of_int n + 1 / 2 \<Longrightarrow> Math_round x \<le> n"
proof -
  assume "x < of_int n + 1 / 2"
  then have "x + 1 / 2 < of_int (n + 1)" by simp
  then have "\<lfloor>x + 1 / 2\<rfloor> < n + 1" by (simp only: floor_less_iff)
  then show ?thesis by (simp add: Math_round_def)
qed

lemma Math_round_ge: "of_int n \<le> x \<Longrightarrow> n \<le> Math_round x"
proof -
  assume "of_int n \<le> x"
  then have "of_int n \<le> x + 1 / 2" by simp
  then show ?thesis by (simp add: Math_round_def le_floor_iff)
qed

lemma Math_round_close:
  assumes "\<bar>y - z\<bar> \<le> 1 / 2"
  shows "\<bar>Math_round y - Math_round z\<bar> \<le> 1"
  using assms unfolding Math_round_def by linarith

text \<open>In exact arithmetic the percentage is the rounded quotient, clamped.\<close>

lemma getCompletionPercentage_exact:
  "0 < d \<Longrightarrow> getCompletionPercentage c d = max 0 (min 100 (round (100 * c / d)))"
  by (simp add: getCompletionPercentage_def Math_round_eq mult.commute)

lemma getCompletionPercentage_exact_ge:
  assumes "0 < d" and "d \<le> c"
  shows "getCompletionPercentage c d = 100"
proof -
  have "of_int 100 \<le> c / d * 100"
    using assms by (simp add: pos_le_divide_eq)
  then have "100 \<le> Math_round (c / d * 100)" by (rule Math_round_ge)
  with assms show ?thesis
    by (simp add: getCompletionPercentage_def)
qed

lemma getCompletionPercentage_exact_le:
  assumes "0 < d" and "c \<le> 0"
  shows "getCompletionPercentage c d = 0"
proof -
  have "c / d \<le> 0" using assms by (simp add: divide_nonpos_pos)
  then have "c / d * 100 < of_int 0 + 1 / 2" by simp
  then have "Math_round (c / d * 100) \<le> 0" by (rule Math_round_le)
  with assms show ?thesis
    by (simp add: getCompletionPercentage_def)
qed

lemma getCompletionPercentage_range:
  "0 \<le> getCompletionPercentage c d \<and> getCompletionPercentage c d \<le> 100"
  by (simp add: getCompletionPercentage_def Let_def)

lemma getCompletionPercentage_binary64_range:
  "0 \<le> getCompletionPercentage_binary64 c d \<and> getCompletionPercentage_binary64 c d \<le> 100"
  by (simp add: getCompletionPercentage_binary64_def Let_def)

lemma getCompletionPercentage_binary64_ge:
  assumes "0 < d" and "d \<le> c"
  shows "getCompletionPercentage_binary64 c d = 100"
proof -
  have "1 \<le> c / d" using assms by simp
  then have "b64 1 \<le> b64 (c / d)" by (rule b64_mono)
  then have "100 \<le> b64 (c / d) * 100" by (simp add: b64_values)
  then have "b64 100 \<le> b64 (b64 (c / d) * 100)" by (rule b64_mono)
  then have "of_int 100 \<le> b64 (b64 (c / d) * 100)" by (simp add: b64_values)
  then have "100 \<le> Math_round (b64 (b64 (c / d) * 100))" by (rule Math_round_ge)
  with assms show ?thesis
    by (simp add: getCompletionPercentage_binary64_def)
qed

lemma getCompletionPercentage_binary64_le:
  assumes "0 < d" and "c \<le> 0"
  shows "getCompletionPercentage_binary64 c d = 0"
proof -
  have "c / d \<le> 0" using assms by (simp add: divide_nonpos_pos)
  then have "b64 (c / d) \<le> b64 0" by (rule b64_mono)
  then have "b64 (c / d) * 100 \<le> 0" by simp
  then have "b64 (b64 (c / d) * 100) \<le> b64 0" by (rule b64_mono)
  then have "b64 (b64 (c / d) * 100) < of_int 0 + 1 / 2" by simp
  then have "Math_round (b64 (b64 (c / d) * 100)) \<le> 0" by (rule Math_round_le)
  with assms show ?thesis
    by (simp add: getCompletionPercentage_binary64_def)
qed

text \<open>
  The two roundings move the product by less than a half, so the percentage as computed
  is at most one away from the exact one.
\<close>

lemma getCompletionPercentage_binary64_close:
  "\<bar>getCompletionPercentage_binary64 c d - getCompletionPercentage c d\<bar> \<le> 1"
proof -
  consider "d \<le> 0" | "0 < d" "c \<le> 0" | "0 < d" "d \<le> c" | "0 < d" "0 < c" "c < d"
    by linarith
  then show ?thesis
  proof cases
    case 1
    then show ?thesis
      by (simp add: getCompletionPercentage_binary64_def getCompletionPercentage_def)
  next
    case 2
    then have "getCompletionPercentage c d = 0"
      using getCompletionPercentage_exact_le by simp
    then show ?thesis
      using 2 by (simp add: getCompletionPercentage_binary64_le)
  next
    case 3
    then have "getCompletionPercentage c d = 100"
      using getCompletionPercentage_exact_ge by simp
    then show ?thesis
      using 3 by (simp add: getCompletionPercentage_binary64_ge)
  next
    case 4
    define q where "q = c / d"
    have q: "0 < q" "q < 1" using 4 by (simp_all add: q_def)
    have "b64 q \<le> b64 1"
      using q by (intro b64_mono) simp
    moreover have "0 \<le> b64 q"
      using q by (intro b64_nonneg) simp
    ultimately have r: "0 \<le> b64 q" "b64 q \<le> 1"
      by (simp_all add: b64_values)
    have "\<bar>q\<bar> / 2 ^ 53 \<le> 1 / 2 ^ 53"
      using q by (intro divide_right_mono) simp_all
    with b64_error [of q] have a1: "\<bar>b64 q - q\<bar> \<le> 1 / 2 ^ 53"
      by linarith
    have "b64 q * 100 - q * 100 = (b64 q - q) * 100"
      by (simp add: algebra_simps)
    then have "\<bar>b64 q * 100 - q * 100\<bar> = \<bar>b64 q - q\<bar> * 100"
      by (simp only: abs_mult)
    with a1 have e1: "\<bar>b64 q * 100 - q * 100\<bar> \<le> 100 / 2 ^ 53"
      by linarith
    have "\<bar>b64 q * 100\<bar> / 2 ^ 53 \<le> 100 / 2 ^ 53"
      using r by (intro divide_right_mono) simp_all
    with b64_error [of "b64 q * 100"]
    have e2: "\<bar>b64 (b64 q * 100) - b64 q * 100\<bar> \<le> 100 / 2 ^ 53"
      by linarith
    have "(100::real) / 2 ^ 53 \<le> 1 / 4"
      by simp
    with e1 e2 have "\<bar>b64 (b64 q * 100) - q * 100\<bar> \<le> 1 / 2"
      by linarith
    then have "\<bar>Math_round (b64 (b64 q * 100)) - Math_round (q * 100)\<bar> \<le> 1"
      by (rule Math_round_close)
    then show ?thesis
      using 4 by (simp add: getCompletionPercentage_binary64_def getCompletionPercentage_def
          q_def [symmetric] Let_def)
  qed
qed

text \<open>
  23 minutes of 40. The quotient 0.575 is not a binary64 value and rounds to
  \<open>5179139571476070 / 2 ^ 53\<close>, just below it; a hundred times that rounds to
  \<open>8092405580431359 / 2 ^ 47\<close>, just below 57.5.
\<close>

lemma b64_23_40: "b64 (23 / 40) = 5179139571476070 / 2 ^ 53"
proof -
  have a: "pow2 (- 1) \<le> \<bar>23 / 40 :: real\<bar>" and b: "\<bar>23 / 40 :: real\<bar> < pow2 (- 1 + 1)"
    by simp_all
  show ?thesis
    unfolding b64_eval [OF a b] by (simp add: rne_def)
qed

lemma b64_23_40_100:
  "b64 (5179139571476070 / 2 ^ 53 * 100) = 8092405580431359 / 2 ^ 47"
proof -
  have a: "pow2 5 \<le> \<bar>5179139571476070 / 2 ^ 53 * 100 :: real\<bar>"
    and b: "\<bar>5179139571476070 / 2 ^ 53 * 100 :: real\<bar> < pow2 (5 + 1)"
    by simp_all
  show ?thesis
    unfolding b64_eval [OF a b] by (simp add: rne_def)
qed

lemma getCompletionPercentage_binary64_23_40: "getCompletionPercentage_binary64 23 40 = 57"
proof -
  have v: "b64 (b64 (23 / 40) * 100) = 8092405580431359 / 2 ^ 47"
    by (simp only: b64_23_40 b64_23_40_100)
  show ?thesis
    unfolding getCompletionPercentage_binary64_def Let_def v by (simp add: Math_round_def)
qed

text \<open>
  C5, as amended. With a duration of zero or less the percentage is 0. Otherwise the
  quotient \<open>c / d\<close> is rounded to binary64, its product with 100 is rounded to binary64,
  and the percentage is the integer nearest to that, clamped to the range from 0 to 100.
  It is 100 when \<open>c \<ge> d > 0\<close> and 0 when \<open>c \<le> 0 < d\<close>. The function is total, and
  every result is between 0 and 100. In exact arithmetic the percentage is
  \<open>100 * c / d\<close> rounded and clamped, and the percentage as computed is at most one
  away from that.
\<close>

theorem getCompletionPercentage_clamped:
  "(d \<le> 0 \<longrightarrow> getCompletionPercentage_binary64 c d = 0)
   \<and> (0 < d \<longrightarrow> getCompletionPercentage_binary64 c d
         = max 0 (min 100 (round (b64 (b64 (c / d) * 100)))))
   \<and> (0 < d \<and> d \<le> c \<longrightarrow> getCompletionPercentage_binary64 c d = 100)
   \<and> (0 < d \<and> c \<le> 0 \<longrightarrow> getCompletionPercentage_binary64 c d = 0)
   \<and> 0 \<le> getCompletionPercentage_binary64 c d
   \<and> getCompletionPercentage_binary64 c d \<le> 100
   \<and> (d \<le> 0 \<longrightarrow> getCompletionPercentage c d = 0)
   \<and> (0 < d \<longrightarrow> getCompletionPercentage c d = max 0 (min 100 (round (100 * c / d))))
   \<and> \<bar>getCompletionPercentage_binary64 c d - getCompletionPercentage c d\<bar> \<le> 1"
proof -
  have a: "d \<le> 0 \<longrightarrow> getCompletionPercentage_binary64 c d = 0"
    by (simp add: getCompletionPercentage_binary64_def)
  have b: "0 < d \<longrightarrow> getCompletionPercentage_binary64 c d
      = max 0 (min 100 (round (b64 (b64 (c / d) * 100))))"
    by (simp add: getCompletionPercentage_binary64_def Math_round_eq)
  have e: "d \<le> 0 \<longrightarrow> getCompletionPercentage c d = 0"
    by (simp add: getCompletionPercentage_def)
  from a b e getCompletionPercentage_binary64_ge getCompletionPercentage_binary64_le
    getCompletionPercentage_binary64_range getCompletionPercentage_exact
    getCompletionPercentage_binary64_close
  show ?thesis by blast
qed

theorem getCompletionPercentage_clamped_witness:
  "(0::real) \<le> 0 \<and> (- 3::real) \<le> 0 \<and> (0::real) < 60
   \<and> (0::real) < 45 \<and> (45::real) \<le> 50 \<and> (- 5::real) \<le> 0
   \<and> getCompletionPercentage_binary64 5 0 = 0
   \<and> getCompletionPercentage_binary64 5 (- 3) = 0
   \<and> getCompletionPercentage_binary64 30 60 = 50
   \<and> getCompletionPercentage_binary64 50 45 = 100
   \<and> getCompletionPercentage_binary64 (- 5) 45 = 0
   \<and> getCompletionPercentage 5 0 = 0
   \<and> getCompletionPercentage 30 60 = 50"
  using getCompletionPercentage_clamped [of 0 5] getCompletionPercentage_clamped [of "- 3" 5]
    getCompletionPercentage_clamped [of 60 30] getCompletionPercentage_clamped [of 45 50]
    getCompletionPercentage_clamped [of 45 "- 5"]
  by (simp add: round_def b64_values)

text \<open>
  23 minutes of 40 give 57, where \<open>100 * 23 / 40 = 57.5\<close> rounded is 58.
\<close>

theorem getCompletionPercentage_23_of_40:
  "getCompletionPercentage_binary64 23 40 \<noteq> max 0 (min 100 (round (100 * 23 / 40 :: real)))"
  by (simp add: getCompletionPercentage_binary64_23_40 round_def)

section \<open>Promptness\<close>

text \<open>
  For a delay in whole minutes the promptness arithmetic is exact in binary64: the
  products are multiples of \<open>1 / 8\<close> and of \<open>1 / 4\<close> below 32.
\<close>

lemma promptnessScore_binary64_exact:
  "promptnessScore_binary64 d = promptnessScore_unrounded d"
proof -
  consider "d \<le> 2" | "2 < d" "d \<le> 10" | "10 < d" "d \<le> 30" | "30 < d" by linarith
  then show ?thesis
  proof cases
    case 1
    then show ?thesis
      by (simp add: promptnessScore_binary64_def promptnessScore_unrounded_def)
  next
    case 2
    have s1: "b64 (real_of_int d - 2) = real_of_int d - 2"
      using b64_int [of "d - 2"] 2 by simp
    have e2: "1.875 * (real_of_int d - 2) = real_of_int (15 * (d - 2)) * pow2 (- 3)"
      by simp
    have s2: "b64 (1.875 * (real_of_int d - 2)) = 1.875 * (real_of_int d - 2)"
      unfolding e2 using 2 by (intro b64_representable) simp
    have e3: "30 - 1.875 * (real_of_int d - 2) = real_of_int (240 - 15 * (d - 2)) * pow2 (- 3)"
      by (simp add: field_simps)
    have s3: "b64 (30 - 1.875 * (real_of_int d - 2)) = 30 - 1.875 * (real_of_int d - 2)"
      unfolding e3 using 2 by (intro b64_representable) simp
    from 2 show ?thesis
      by (simp only: promptnessScore_binary64_def promptnessScore_unrounded_def s1 s2 s3)
        simp
  next
    case 3
    have s1: "b64 (real_of_int d - 10) = real_of_int d - 10"
      using b64_int [of "d - 10"] 3 by simp
    have e2: "0.75 * (real_of_int d - 10) = real_of_int (3 * (d - 10)) * pow2 (- 2)"
      by simp
    have s2: "b64 (0.75 * (real_of_int d - 10)) = 0.75 * (real_of_int d - 10)"
      unfolding e2 using 3 by (intro b64_representable) simp
    have e3: "15 - 0.75 * (real_of_int d - 10) = real_of_int (60 - 3 * (d - 10)) * pow2 (- 2)"
      by (simp add: field_simps)
    have s3: "b64 (15 - 0.75 * (real_of_int d - 10)) = 15 - 0.75 * (real_of_int d - 10)"
      unfolding e3 using 3 by (intro b64_representable) simp
    from 3 show ?thesis
      by (simp only: promptnessScore_binary64_def promptnessScore_unrounded_def s1 s2 s3)
        simp
  next
    case 4
    then show ?thesis
      by (simp add: promptnessScore_binary64_def promptnessScore_unrounded_def)
  qed
qed

lemma promptnessScore_unrounded_antimono:
  assumes "d1 \<le> d2"
  shows "promptnessScore_unrounded d2 \<le> promptnessScore_unrounded d1"
proof -
  define x1 where "x1 = real_of_int d1"
  define x2 where "x2 = real_of_int d2"
  have r: "x1 \<le> x2"
    using assms by (simp add: x1_def x2_def)
  have c1: "(d1 \<le> 2) = (x1 \<le> 2)" "(d1 \<le> 10) = (x1 \<le> 10)" "(d1 \<le> 30) = (x1 \<le> 30)"
    by (simp_all add: x1_def)
  have c2: "(d2 \<le> 2) = (x2 \<le> 2)" "(d2 \<le> 10) = (x2 \<le> 10)" "(d2 \<le> 30) = (x2 \<le> 30)"
    by (simp_all add: x2_def)
  show ?thesis
    unfolding promptnessScore_unrounded_def c1 c2 x1_def [symmetric] x2_def [symmetric]
    using r by (auto simp: field_simps)
qed

lemma promptnessScore_range:
  "0 \<le> promptnessScore_unrounded d \<and> promptnessScore_unrounded d \<le> 30"
proof -
  define x where "x = real_of_int d"
  have c: "(d \<le> 2) = (x \<le> 2)" "(d \<le> 10) = (x \<le> 10)" "(d \<le> 30) = (x \<le> 30)"
    by (simp_all add: x_def)
  show ?thesis
    unfolding promptnessScore_unrounded_def c x_def [symmetric]
    by (auto simp: field_simps)
qed

text \<open>
  C2. The promptness score before rounding is 30 up to a delay of 2 minutes,
  \<open>30 - 1.875 * (delay - 2)\<close> from 2 to 10, \<open>15 - 0.75 * (delay - 10)\<close> from 10 to 30,
  and 0 from 30 on. Each formula holds on its closed interval, both ends included, so
  adjacent pieces agree at 2, 10 and 30: the value is 15 at 10 and 0 at 30. The
  binary64 computation gives the same values, exactly. The field returned is this
  value, at the delay in minutes of the two dates, rounded.
\<close>

theorem promptnessScore_piecewise:
  "(d \<le> 2 \<longrightarrow> promptnessScore_unrounded d = 30)
   \<and> (2 \<le> d \<and> d \<le> 10 \<longrightarrow> promptnessScore_unrounded d = 30 - 1.875 * (real_of_int d - 2))
   \<and> (10 \<le> d \<and> d \<le> 30 \<longrightarrow> promptnessScore_unrounded d = 15 - 0.75 * (real_of_int d - 10))
   \<and> (30 \<le> d \<longrightarrow> promptnessScore_unrounded d = 0)
   \<and> promptnessScore_binary64 d = promptnessScore_unrounded d
   \<and> promptnessScore (calculateProductivityScore i)
       = Math_round (promptnessScore_unrounded
           (getDelayMinutes (scheduledStart i) (actualStart i)))
   \<and> promptnessScore (calculateProductivityScore_binary64 i)
       = Math_round (promptnessScore_binary64
           (getDelayMinutes_binary64 (scheduledStart i) (actualStart i)))"
proof -
  have "(d \<le> 2 \<longrightarrow> promptnessScore_unrounded d = 30)
   \<and> (2 \<le> d \<and> d \<le> 10 \<longrightarrow> promptnessScore_unrounded d = 30 - 1.875 * (real_of_int d - 2))
   \<and> (10 \<le> d \<and> d \<le> 30 \<longrightarrow> promptnessScore_unrounded d = 15 - 0.75 * (real_of_int d - 10))
   \<and> (30 \<le> d \<longrightarrow> promptnessScore_unrounded d = 0)"
    by (auto simp add: promptnessScore_unrounded_def)
  moreover have "promptnessScore (calculateProductivityScore i)
       = Math_round (promptnessScore_unrounded
           (getDelayMinutes (scheduledStart i) (actualStart i)))"
    by (simp add: calculateProductivityScore_def)
  moreover have "promptnessScore (calculateProductivityScore_binary64 i)
       = Math_round (promptnessScore_binary64
           (getDelayMinutes_binary64 (scheduledStart i) (actualStart i)))"
    by (simp add: calculateProductivityScore_binary64_def)
  ultimately show ?thesis
    using promptnessScore_binary64_exact by blast
qed

theorem promptnessScore_piecewise_witness:
  "(2::int) \<le> 2 \<and> (2::int) \<le> 10 \<and> (10::int) \<le> 10 \<and> (10::int) \<le> 30
   \<and> (30::int) \<le> 30 \<and> (30::int) \<le> 31 \<and> (- 7::int) \<le> 2
   \<and> promptnessScore_unrounded 2 = 30
   \<and> 30 - 1.875 * (real_of_int 2 - 2) = 30
   \<and> promptnessScore_unrounded 10 = 15
   \<and> 30 - 1.875 * (real_of_int 10 - 2) = 15
   \<and> 15 - 0.75 * (real_of_int 10 - 10) = 15
   \<and> promptnessScore_unrounded 30 = 0
   \<and> 15 - 0.75 * (real_of_int 30 - 10) = 0
   \<and> promptnessScore_unrounded 31 = 0
   \<and> promptnessScore_unrounded (- 7) = 30
   \<and> promptnessScore_binary64 10 = 15"
  using promptnessScore_piecewise [of 2] promptnessScore_piecewise [of 10]
    promptnessScore_piecewise [of 30] promptnessScore_piecewise [of 31]
    promptnessScore_piecewise [of "- 7"]
  by simp

text \<open>
  C9. The promptness score before rounding never increases with the delay, over all
  delays, negative ones included; in exact arithmetic and in binary64.
\<close>

theorem promptnessScore_antimono:
  "d1 \<le> d2 \<Longrightarrow>
     promptnessScore_unrounded d2 \<le> promptnessScore_unrounded d1
     \<and> promptnessScore_binary64 d2 \<le> promptnessScore_binary64 d1"
  by (simp add: promptnessScore_binary64_exact promptnessScore_unrounded_antimono)

theorem promptnessScore_antimono_witness:
  "(5::int) \<le> 20
   \<and> promptnessScore_unrounded 20 \<le> promptnessScore_unrounded 5
   \<and> promptnessScore_binary64 20 \<le> promptnessScore_binary64 5
   \<and> promptnessScore_unrounded 20 = 7.5 \<and> promptnessScore_unrounded 5 = 24.375"
  using promptnessScore_antimono [of 5 20] by (simp add: promptnessScore_unrounded_def)

section \<open>The commitment bonus\<close>

subsection \<open>In exact arithmetic\<close>

lemma commitmentBonus_at_45: "commitmentBonus_unrounded 45 = 5.25"
  by (simp add: commitmentBonus_unrounded_def maxBonus_def)



lemma commitmentBonus_pos: "0 < commitmentBonus_unrounded c"
  by (simp add: commitmentBonus_unrounded_def maxBonus_def add_pos_pos)

lemma commitmentBonus_less: "commitmentBonus_unrounded c < 10.5"
proof -
  have "1 < 1 + exp (- 0.07 * (c - 45))" by simp
  then have "(10.5::real) / (1 + exp (- 0.07 * (c - 45))) < 10.5 / 1"
    by (intro divide_strict_left_mono) (simp_all add: add_pos_pos)
  then show ?thesis
    by (simp add: commitmentBonus_unrounded_def maxBonus_def)
qed



subsection \<open>In binary64\<close>

lemma commitmentBonus_binary64_45: "commitmentBonus_binary64 45 = 5.25"
  by (simp add: commitmentBonus_binary64_def maxBonus_def Math_exp_0 b64_values)

lemma denominator_ge_1: "1 \<le> b64 (1 + Math_exp t)"
proof -
  have "b64 1 \<le> b64 (1 + Math_exp t)"
    using Math_exp_pos [of t] by (intro b64_mono) simp
  then show ?thesis by (simp add: b64_values)
qed

lemma commitmentBonus_binary64_le: "commitmentBonus_binary64 c \<le> 10.5"
proof -
  define den where "den = b64 (1 + Math_exp (b64 (- b64 0.07 * b64 (c - 45))))"
  have d1: "1 \<le> den" unfolding den_def by (rule denominator_ge_1)
  then have "(21 / 2) / den \<le> (21 / 2) / 1"
    by (intro divide_left_mono) simp_all
  then have "b64 ((21 / 2) / den) \<le> b64 (21 / 2)"
    by (intro b64_mono) simp
  moreover have "commitmentBonus_binary64 c = b64 (b64 (maxBonus + 0.5) / den)"
    by (simp only: commitmentBonus_binary64_def den_def)
  ultimately show ?thesis
    by (simp add: maxBonus_def b64_values)
qed

text \<open>
  Without an exponent range the rounded quotient is never 0. In binary64
  \<^verbatim>\<open>Math.exp\<close> overflows for an argument above 709.78, that is below some
  \<open>- 10095\<close> completed minutes, and the bonus is then 0: see
  \<open>commitmentBonus_engine_overflow\<close> below. This lemma is only used for the lower
  bound 0 of the field.
\<close>

lemma commitmentBonus_binary64_pos: "0 < commitmentBonus_binary64 c"
proof -
  define den where "den = b64 (1 + Math_exp (b64 (- b64 0.07 * b64 (c - 45))))"
  have d1: "1 \<le> den" unfolding den_def by (rule denominator_ge_1)
  then have "0 < (21 / 2) / den" by simp
  then have "0 < b64 ((21 / 2) / den)" by (rule b64_pos)
  moreover have "commitmentBonus_binary64 c = b64 (b64 (maxBonus + 0.5) / den)"
    by (simp only: commitmentBonus_binary64_def den_def)
  ultimately show ?thesis
    by (simp add: maxBonus_def b64_values)
qed

text \<open>
  From 600 completed minutes on, the argument of \<^verbatim>\<open>Math.exp\<close> is at most \<open>- 38\<close>,
  its result is at most \<open>2 ^ - 53\<close>, the sum with 1 rounds to 1, and the bonus before
  rounding is \<open>10.5 / 1\<close>.
\<close>

lemma exponent_le:
  assumes "600 \<le> c"
  shows "b64 (- b64 0.07 * b64 (c - 45)) \<le> - 38"
proof -
  have "(555::real) \<le> c - 45" using assms by simp
  then have "b64 555 \<le> b64 (c - 45)" by (rule b64_mono)
  then have t: "555 \<le> b64 (c - 45)" by (simp add: b64_values)
  have "b64 (71 / 1024) \<le> b64 0.07" by (rule b64_mono) simp
  then have k: "71 / 1024 \<le> b64 0.07" by (simp add: b64_values)
  have "(71 / 1024) * 555 \<le> b64 0.07 * b64 (c - 45)"
    using k t by (intro mult_mono) simp_all
  then have "38 \<le> b64 0.07 * b64 (c - 45)" by simp
  then have "b64 38 \<le> b64 (b64 0.07 * b64 (c - 45))" by (rule b64_mono)
  then have "38 \<le> b64 (b64 0.07 * b64 (c - 45))" by (simp add: b64_values)
  moreover have "b64 (- b64 0.07 * b64 (c - 45)) = - b64 (b64 0.07 * b64 (c - 45))"
    by (simp add: b64_minus)
  ultimately show ?thesis by simp
qed

lemma commitmentBonus_binary64_saturated:
  assumes "600 \<le> c"
  shows "commitmentBonus_binary64 c = 10.5"
proof -
  define t where "t = b64 (- b64 0.07 * b64 (c - 45))"
  have "t \<le> - 38" unfolding t_def using assms by (rule exponent_le)
  then have "Math_exp t \<le> pow2 (- 53)"
    by (rule Math_exp_tiny)
  moreover have "0 \<le> Math_exp t"
    using Math_exp_pos [of t] by simp
  ultimately have one: "b64 (1 + Math_exp t) = 1"
    by (intro b64_one_plus_tiny)
  have "commitmentBonus_binary64 c = b64 (b64 (maxBonus + 0.5) / b64 (1 + Math_exp t))"
    by (simp only: commitmentBonus_binary64_def t_def)
  also have "\<dots> = b64 (b64 (21 / 2) / 1)"
    by (simp only: one) (simp add: maxBonus_def)
  also have "\<dots> = 21 / 2"
    by (simp add: b64_values)
  finally show ?thesis by simp
qed

subsection \<open>The exponential of the engine\<close>

text \<open>
  What \<open>engine_exp\<close> says, case by case.
\<close>

lemma engine_exp_0: "engine_exp E \<Longrightarrow> E 0 = Finite 1"
  by (simp add: engine_exp_def)

lemma engine_exp_Finite:
  assumes "engine_exp E" and "E t = Finite e"
  shows "0 \<le> e" and "\<bar>e - exp t\<bar> \<le> exp t / 2 ^ 45 + 1 / 2 ^ 1074" and "exp t < 2 ^ 1025"
proof -
  have "case E t of
          PlusInfinity \<Rightarrow> 2 ^ 1023 \<le> exp t
        | Finite e \<Rightarrow>
            0 \<le> e \<and> \<bar>e - exp t\<bar> \<le> exp t / 2 ^ 45 + 1 / 2 ^ 1074 \<and> exp t < 2 ^ 1025"
    using assms(1) unfolding engine_exp_def by blast
  then have "0 \<le> e \<and> \<bar>e - exp t\<bar> \<le> exp t / 2 ^ 45 + 1 / 2 ^ 1074 \<and> exp t < 2 ^ 1025"
    by (simp add: assms(2))
  then show "0 \<le> e" and "\<bar>e - exp t\<bar> \<le> exp t / 2 ^ 45 + 1 / 2 ^ 1074"
    and "exp t < 2 ^ 1025"
    by blast+
qed

lemma engine_exp_PlusInfinity:
  assumes "engine_exp E" and "E t = PlusInfinity"
  shows "2 ^ 1023 \<le> exp t"
proof -
  have "case E t of
          PlusInfinity \<Rightarrow> 2 ^ 1023 \<le> exp t
        | Finite e \<Rightarrow>
            0 \<le> e \<and> \<bar>e - exp t\<bar> \<le> exp t / 2 ^ 45 + 1 / 2 ^ 1074 \<and> exp t < 2 ^ 1025"
    using assms(1) unfolding engine_exp_def by blast
  then show ?thesis by (simp add: assms(2))
qed



lemma exp_le_pow3: "exp (real n) \<le> 3 ^ n"
proof -
  have "exp (real n * 1) = exp 1 ^ n"
    by (simp only: exp_of_nat_mult)
  also have "\<dots> \<le> 3 ^ n"
    using exp_le by (intro power_mono) simp_all
  finally show ?thesis by simp
qed

lemma power_frac_le:
  fixes a b c d :: real
  assumes "0 < b" and "0 < d" and "a ^ n * d \<le> c * b ^ n"
  shows "(a / b) ^ n \<le> c / d"
proof -
  have "0 < b ^ n" using assms(1) by simp
  then have "a ^ n / b ^ n \<le> c / d"
    using assms(2,3) by (simp add: field_simps)
  then show ?thesis by (simp only: power_divide)
qed


lemma exp_1_le: "exp (1::real) \<le> 273 / 100"
proof -
  have "exp (1 / 128 :: real) \<le> 1 + 1 / 128 + (1 / 128)\<^sup>2"
    by (intro exp_bound) simp_all
  then have "exp (1 / 128 :: real) \<le> 16513 / 16384"
    by (simp add: power2_eq_square)
  then have "exp (1 / 128 :: real) ^ 128 \<le> (16513 / 16384) ^ 128"
    by (intro power_mono) simp_all
  moreover have "exp (1 / 128 :: real) ^ 128 = exp (of_nat 128 * (1 / 128))"
    by (simp only: exp_of_nat_mult)
  moreover have "(16513 / 16384 :: real) ^ 128 \<le> 273 / 100"
    by (rule power_frac_le) simp_all
  ultimately show ?thesis by simp
qed


lemma exp_nat_le: "exp (real n) \<le> (273 / 100) ^ n"
proof -
  have "exp (real n * 1) = exp 1 ^ n"
    by (simp only: exp_of_nat_mult)
  also have "\<dots> \<le> (273 / 100) ^ n"
    using exp_1_le by (intro power_mono) simp_all
  finally show ?thesis by simp
qed


lemma exp_704: "exp (704::real) < 2 ^ 1023"
proof -
  have "(273 / 100 :: real) ^ 31 \<le> 2 ^ 45 / 1"
    by (rule power_frac_le) simp_all
  with exp_nat_le [of 31] have a: "exp (31::real) \<le> 2 ^ 45" by simp
  have "(273 / 100 :: real) ^ 22 \<le> 2 ^ 32 / 1"
    by (rule power_frac_le) simp_all
  with exp_nat_le [of 22] have b: "exp (22::real) \<le> 2 ^ 32" by simp
  have "exp (31::real) ^ 22 \<le> (2 ^ 45) ^ 22"
    using a by (intro power_mono) simp_all
  then have c: "exp (31::real) ^ 22 \<le> 2 ^ 990"
    by (simp only: power_mult [symmetric]) simp
  have "exp (704::real) = exp (of_nat 22 * 31 + 22)" by simp
  also have "\<dots> = exp 31 ^ 22 * exp 22"
    by (simp only: exp_add exp_of_nat_mult)
  also have "\<dots> \<le> 2 ^ 990 * 2 ^ 32"
    using c b by (intro mult_mono) simp_all
  also have "\<dots> = 2 ^ 1022"
    by (simp only: power_add [symmetric]) simp
  also have "\<dots> < (2::real) ^ 1023"
    by (rule power_strict_increasing) simp_all
  finally show ?thesis .
qed


lemma exp_minus_38_54: "exp (- 38 :: real) \<le> 1 / 2 ^ 54"
proof -
  have "(41 / 32 :: real) \<le> exp (1 / 4)"
    using exp_lower_Taylor_quadratic [of "1 / 4 :: real"] by (simp add: power2_eq_square)
  then have "(41 / 32 :: real) ^ 152 \<le> exp (1 / 4) ^ 152"
    by (intro power_mono) simp_all
  also have "\<dots> = exp (of_nat 152 * (1 / 4 :: real))"
    by (simp only: exp_of_nat_mult)
  also have "\<dots> = exp (38 :: real)" by simp
  finally have "(41 / 32 :: real) ^ 152 \<le> exp 38" .
  moreover have "(2 :: real) ^ 54 * 32 ^ 152 \<le> 41 ^ 152"
    by simp
  then have "(2 :: real) ^ 54 \<le> (41 / 32) ^ 152"
    by (simp add: power_divide pos_le_divide_eq)
  ultimately have "(2 :: real) ^ 54 \<le> exp 38"
    by linarith
  then have "inverse (exp (38 :: real)) \<le> inverse (2 ^ 54)"
    by (intro le_imp_inverse_le) simp_all
  then show ?thesis
    by (simp add: exp_minus inverse_eq_divide)
qed


text \<open>
  A result of the engine for an argument of at most \<open>- 38\<close> vanishes next to 1; up to
  704 it is finite; from 717 on it is \<^verbatim>\<open>Infinity\<close>.
\<close>

lemma engine_exp_tiny:
  assumes "engine_exp E" and "t \<le> - 38"
  shows "\<exists>e. E t = Finite e \<and> 0 \<le> e \<and> e \<le> pow2 (- 53)"
proof (cases "E t")
  case PlusInfinity
  then have "2 ^ 1023 \<le> exp t"
    using assms(1) by (rule engine_exp_PlusInfinity [rotated])
  moreover have "exp t \<le> 1" using assms(2) by simp
  ultimately have False by simp
  then show ?thesis ..
next
  case (Finite e)
  have e0: "0 \<le> e" and acc: "\<bar>e - exp t\<bar> \<le> exp t / 2 ^ 45 + 1 / 2 ^ 1074"
    using engine_exp_Finite [OF assms(1) Finite] by blast+
  have "exp t \<le> exp (- 38)" using assms(2) by simp
  then have s: "exp t \<le> 1 / 2 ^ 54" using exp_minus_38_54 by linarith
  then have "exp t / 2 ^ 45 \<le> (1 / 2 ^ 54) / 2 ^ 45"
    by (intro divide_right_mono) simp_all
  moreover have "(1 / 2 ^ 54) / 2 ^ 45 + 1 / 2 ^ 1074 + 1 / 2 ^ 54 \<le> (1 / 2 ^ 53 :: real)"
    by simp
  ultimately have "e \<le> 1 / 2 ^ 53"
    using acc s by linarith
  with Finite e0 show ?thesis by simp
qed




text \<open>
  The correctly rounded exponential is such a function, and it never decreases.
\<close>

lemma exp_rounded_PlusInfinity:
  assumes "2 ^ 1024 \<le> b64 (exp t)"
  shows "exp_rounded t = PlusInfinity" and "2 ^ 1023 \<le> exp t"
proof -
  show "exp_rounded t = PlusInfinity"
    using assms by (simp add: exp_rounded_def)
  show "2 ^ 1023 \<le> exp t"
  proof (rule ccontr)
    assume "\<not> 2 ^ 1023 \<le> exp t"
    then have "exp t \<le> pow2 1023" by simp
    then have "b64 (exp t) \<le> b64 (pow2 1023)" by (rule b64_mono)
    then have "b64 (exp t) \<le> pow2 1023" by (simp only: b64_pow2)
    moreover have "pow2 1023 < (2::real) ^ 1024" by simp
    ultimately show False using assms by linarith
  qed
qed

lemma exp_rounded_subnormal:
  assumes "exp t < 1 / 2 ^ 1022"
  shows "exp_rounded t = Finite (real_of_int (rne (exp t * 2 ^ 1074)) / 2 ^ 1074)"
proof -
  have "(1::real) / 2 ^ 1022 \<le> 1" by simp
  with assms have "exp t \<le> 1" by linarith
  then have "b64 (exp t) \<le> b64 1" by (rule b64_mono)
  then have "b64 (exp t) \<le> 1" by (simp add: b64_values)
  then have "\<not> 2 ^ 1024 \<le> b64 (exp t)" by simp
  then show ?thesis using assms by (simp add: exp_rounded_def)
qed

lemma exp_rounded_normal:
  assumes "\<not> 2 ^ 1024 \<le> b64 (exp t)" and "\<not> exp t < 1 / 2 ^ 1022"
  shows "exp_rounded t = Finite (b64 (exp t))" and "exp t < 2 ^ 1025"
    and "1 / 2 ^ 1022 \<le> b64 (exp t)"
proof -
  show "exp_rounded t = Finite (b64 (exp t))"
    using assms by (simp add: exp_rounded_def)
  show "exp t < 2 ^ 1025"
  proof (rule ccontr)
    assume "\<not> exp t < 2 ^ 1025"
    then have "pow2 1025 \<le> exp t" by simp
    then have "b64 (pow2 1025) \<le> b64 (exp t)" by (rule b64_mono)
    then have "pow2 1025 \<le> b64 (exp t)" by (simp only: b64_pow2)
    moreover have "(2::real) ^ 1024 \<le> pow2 1025" by simp
    ultimately show False using assms(1) by linarith
  qed
  have "pow2 (- 1022) \<le> exp t" using assms(2) by simp
  then have "b64 (pow2 (- 1022)) \<le> b64 (exp t)" by (rule b64_mono)
  then have "pow2 (- 1022) \<le> b64 (exp t)" by (simp only: b64_pow2)
  then show "1 / 2 ^ 1022 \<le> b64 (exp t)" by simp
qed

lemma scaled_error:
  fixes y k :: real
  assumes "0 \<le> y" and "0 < k"
  shows "0 \<le> real_of_int (rne (y * k)) / k"
    and "\<bar>real_of_int (rne (y * k)) / k - y\<bar> \<le> 1 / k"
proof -
  have "real_of_int 0 \<le> y * k" using assms by simp
  then have "0 \<le> rne (y * k)" by (rule rne_ge)
  then show "0 \<le> real_of_int (rne (y * k)) / k" using assms(2) by simp
  have "\<bar>real_of_int (rne (y * k)) - y * k\<bar> \<le> 1 / 2"
    by (rule rne_error)
  then have "\<bar>real_of_int (rne (y * k)) - y * k\<bar> / k \<le> (1 / 2) / k"
    using assms(2) by (intro divide_right_mono) simp_all
  moreover have "real_of_int (rne (y * k)) / k - y = (real_of_int (rne (y * k)) - y * k) / k"
    using assms(2) by (simp add: diff_divide_distrib)
  then have "\<bar>real_of_int (rne (y * k)) / k - y\<bar> = \<bar>real_of_int (rne (y * k)) - y * k\<bar> / k"
    using assms(2) by (simp only: abs_divide abs_of_pos)
  moreover have "(1 / 2) / k \<le> 1 / k" using assms(2) by (simp add: field_simps)
  ultimately show "\<bar>real_of_int (rne (y * k)) / k - y\<bar> \<le> 1 / k"
    by linarith
qed

lemma subnormal_error:
  fixes y :: real
  assumes "0 \<le> y"
  shows "0 \<le> real_of_int (rne (y * 2 ^ 1074)) / 2 ^ 1074"
    and "\<bar>real_of_int (rne (y * 2 ^ 1074)) / 2 ^ 1074 - y\<bar> \<le> 1 / 2 ^ 1074"
  using assms by (rule scaled_error, simp)+

lemma engine_exp_exp_rounded: "engine_exp exp_rounded"
proof -
  have "\<not> (2::real) ^ 1024 \<le> 1" by simp
  then have z: "exp_rounded 0 = Finite 1"
    by (simp add: exp_rounded_def b64_values)
  have "case exp_rounded t of
          PlusInfinity \<Rightarrow> 2 ^ 1023 \<le> exp t
        | Finite e \<Rightarrow>
            0 \<le> e \<and> \<bar>e - exp t\<bar> \<le> exp t / 2 ^ 45 + 1 / 2 ^ 1074 \<and> exp t < 2 ^ 1025"
    for t :: real
  proof -
    consider "2 ^ 1024 \<le> b64 (exp t)" | "exp t < 1 / 2 ^ 1022"
      | "\<not> 2 ^ 1024 \<le> b64 (exp t)" "\<not> exp t < 1 / 2 ^ 1022"
      by blast
    then show ?thesis
    proof cases
      case 1
      then show ?thesis
        using exp_rounded_PlusInfinity [of t] by simp
    next
      case 2
      define e where "e = real_of_int (rne (exp t * 2 ^ 1074)) / 2 ^ 1074"
      have a: "0 \<le> e" and b: "\<bar>e - exp t\<bar> \<le> 1 / 2 ^ 1074"
        unfolding e_def by (rule subnormal_error, simp)+
      have "0 \<le> exp t / 2 ^ 45" by simp
      with b have b': "\<bar>e - exp t\<bar> \<le> exp t / 2 ^ 45 + 1 / 2 ^ 1074" by linarith
      have "(1::real) / 2 ^ 1022 \<le> 2 ^ 1025" by simp
      with 2 have c: "exp t < 2 ^ 1025" by linarith
      have "exp_rounded t = Finite e"
        unfolding e_def using 2 by (rule exp_rounded_subnormal)
      with a b' c show ?thesis by simp
    next
      case 3
      have a: "0 \<le> b64 (exp t)" by (rule b64_nonneg) simp
      have "\<bar>b64 (exp t) - exp t\<bar> \<le> \<bar>exp t\<bar> / 2 ^ 53" by (rule b64_error)
      moreover have "\<bar>exp t\<bar> / 2 ^ 53 \<le> exp t / 2 ^ 45"
        by (simp add: field_simps)
      moreover have "(0::real) \<le> 1 / 2 ^ 1074"
        by simp
      ultimately have b: "\<bar>b64 (exp t) - exp t\<bar> \<le> exp t / 2 ^ 45 + 1 / 2 ^ 1074"
        by linarith
      from a b exp_rounded_normal(1,2) [OF 3] show ?thesis by simp
    qed
  qed
  with z show ?thesis unfolding engine_exp_def by blast
qed


lemma exp_rounded_Math_exp:
  assumes "- 39 \<le> t" and "t \<le> 704"
  shows "exp_rounded t = Finite (Math_exp t)"
proof -
  have "exp t \<le> exp 704" using assms(2) by simp
  moreover have "pow2 1023 = (2::real) ^ 1023" by simp
  ultimately have "exp t \<le> pow2 1023" using exp_704 by linarith
  then have "b64 (exp t) \<le> b64 (pow2 1023)" by (rule b64_mono)
  then have "b64 (exp t) \<le> pow2 1023" by (simp only: b64_pow2)
  moreover have "pow2 1023 < (2::real) ^ 1024" by simp
  ultimately have a: "\<not> 2 ^ 1024 \<le> b64 (exp t)" by linarith
  have "exp (real 39) \<le> 3 ^ 39" by (rule exp_le_pow3)
  moreover have "real 39 = 39" by simp
  ultimately have "exp (39::real) \<le> 3 ^ 39" by (simp only:)
  moreover have "(3::real) ^ 39 \<le> 2 ^ 1022" by simp
  ultimately have "exp (39::real) \<le> 2 ^ 1022" by (rule order_trans)
  then have "inverse (2 ^ 1022) \<le> inverse (exp (39::real))"
    by (intro le_imp_inverse_le) simp_all
  then have "1 / 2 ^ 1022 \<le> exp (- 39 :: real)"
    by (simp add: exp_minus inverse_eq_divide)
  moreover have "exp (- 39) \<le> exp t" using assms(1) by simp
  ultimately have b: "\<not> exp t < 1 / 2 ^ 1022" by linarith
  show ?thesis
    unfolding Math_exp_def using a b by (rule exp_rounded_normal(1))
qed

subsection \<open>The bonus with the exponential of the engine\<close>

text \<open>
  The argument of \<^verbatim>\<open>Math.exp\<close> as computed, \<open>- 0.07 * (c - 45)\<close> with the
  literal, the difference and the product rounded, is within \<open>2 ^ - 50\<close>,
  relatively, of the exact one.
\<close>

lemma exponent_error:
  "\<bar>b64 (- b64 0.07 * b64 (c - 45)) - (- 0.07 * (c - 45))\<bar> \<le> \<bar>- 0.07 * (c - 45)\<bar> / 2 ^ 50"
proof -
  define d where "d = c - 45"
  define k where "k = b64 0.07"
  define t1 where "t1 = b64 d"
  define p where "p = b64 (k * t1)"
  have t: "b64 (- b64 0.07 * b64 (c - 45)) = - p"
    by (simp add: p_def k_def t1_def d_def b64_minus)
  have "\<bar>k - 0.07\<bar> \<le> \<bar>0.07\<bar> / 2 ^ 53"
    unfolding k_def by (rule b64_error)
  then have k1: "\<bar>k - 0.07\<bar> \<le> 0.07 / 2 ^ 53" by simp
  moreover have "(0.07::real) / 2 ^ 53 \<le> 0.01" by simp
  ultimately have k2: "\<bar>k\<bar> \<le> 0.08" by linarith
  have d1: "\<bar>t1 - d\<bar> \<le> \<bar>d\<bar> / 2 ^ 53"
    unfolding t1_def by (rule b64_error)
  have "\<bar>d\<bar> / 2 ^ 53 \<le> \<bar>d\<bar>"
    by (simp add: field_simps)
  with d1 have d2: "\<bar>t1\<bar> \<le> 2 * \<bar>d\<bar>" by linarith
  have "\<bar>k * t1\<bar> = \<bar>k\<bar> * \<bar>t1\<bar>" by (rule abs_mult)
  also have "\<dots> \<le> 0.08 * (2 * \<bar>d\<bar>)"
    using k2 d2 by (intro mult_mono) simp_all
  finally have kt: "\<bar>k * t1\<bar> \<le> 0.16 * \<bar>d\<bar>" by simp
  have "\<bar>p - k * t1\<bar> \<le> \<bar>k * t1\<bar> / 2 ^ 53"
    unfolding p_def by (rule b64_error)
  also have "\<dots> \<le> (0.16 * \<bar>d\<bar>) / 2 ^ 53"
    using kt by (intro divide_right_mono) simp_all
  finally have p1: "\<bar>p - k * t1\<bar> \<le> 0.16 * (\<bar>d\<bar> / 2 ^ 53)" by simp
  have "\<bar>k * (t1 - d)\<bar> = \<bar>k\<bar> * \<bar>t1 - d\<bar>" by (rule abs_mult)
  also have "\<dots> \<le> 0.08 * (\<bar>d\<bar> / 2 ^ 53)"
    using k2 d1 by (intro mult_mono) simp_all
  finally have a1: "\<bar>k * (t1 - d)\<bar> \<le> 0.08 * (\<bar>d\<bar> / 2 ^ 53)" .
  have "\<bar>(k - 0.07) * d\<bar> = \<bar>k - 0.07\<bar> * \<bar>d\<bar>" by (rule abs_mult)
  also have "\<dots> \<le> (0.07 / 2 ^ 53) * \<bar>d\<bar>"
    using k1 by (intro mult_right_mono) simp_all
  finally have a2: "\<bar>(k - 0.07) * d\<bar> \<le> 0.07 * (\<bar>d\<bar> / 2 ^ 53)" by simp
  have "p - 0.07 * d = (p - k * t1) + k * (t1 - d) + (k - 0.07) * d"
    by (simp add: algebra_simps)
  then have "\<bar>p - 0.07 * d\<bar> \<le> \<bar>p - k * t1\<bar> + \<bar>k * (t1 - d)\<bar> + \<bar>(k - 0.07) * d\<bar>"
    by linarith
  with p1 a1 a2 have "\<bar>p - 0.07 * d\<bar> \<le> 0.31 * (\<bar>d\<bar> / 2 ^ 53)"
    by linarith
  also have "\<dots> \<le> (0.07 * \<bar>d\<bar>) / 2 ^ 50"
    by (simp add: field_simps)
  finally have "\<bar>p - 0.07 * d\<bar> \<le> (0.07 * \<bar>d\<bar>) / 2 ^ 50" .
  moreover have "\<bar>- 0.07 * d\<bar> = 0.07 * \<bar>d\<bar>"
    by (simp add: abs_mult)
  moreover have "\<bar>- p - (- 0.07 * d)\<bar> = \<bar>p - 0.07 * d\<bar>"
    by simp
  ultimately have "\<bar>- p - (- 0.07 * d)\<bar> \<le> \<bar>- 0.07 * d\<bar> / 2 ^ 50"
    by (simp only:)
  then show ?thesis
    by (simp only: t d_def)
qed




lemma exponent_le_704:
  assumes "- 10000 \<le> c"
  shows "b64 (- b64 0.07 * b64 (c - 45)) \<le> 704"
proof -
  define x where "x = - 0.07 * (c - 45)"
  define t where "t = b64 (- b64 0.07 * b64 (c - 45))"
  have tx: "\<bar>t - x\<bar> \<le> \<bar>x\<bar> / 2 ^ 50"
    unfolding t_def x_def by (rule exponent_error)
  have "\<bar>x\<bar> / 2 ^ 50 \<le> \<bar>x\<bar> / 1000"
    by (intro divide_left_mono) simp_all
  moreover have "100 * x = 315 - 7 * c" by (simp add: x_def field_simps)
  then have "x \<le> 14063 / 20" using assms by linarith
  ultimately have "t \<le> 704" using tx by linarith
  then show ?thesis unfolding t_def .
qed


lemma exponent_ge:
  assumes "c \<le> 600"
  shows "- 39 \<le> b64 (- b64 0.07 * b64 (c - 45))"
proof -
  define x where "x = - 0.07 * (c - 45)"
  define t where "t = b64 (- b64 0.07 * b64 (c - 45))"
  have tx: "\<bar>t - x\<bar> \<le> \<bar>x\<bar> / 2 ^ 50"
    unfolding t_def x_def by (rule exponent_error)
  have "\<bar>x\<bar> / 2 ^ 50 \<le> \<bar>x\<bar> / 1000"
    by (intro divide_left_mono) simp_all
  moreover have "100 * x = 315 - 7 * c" by (simp add: x_def field_simps)
  then have "- 777 / 20 \<le> x" using assms by linarith
  ultimately have "- 39 \<le> t" using tx by linarith
  then show ?thesis unfolding t_def .
qed





lemma sum_ge_1: "0 \<le> e \<Longrightarrow> 1 \<le> b64 (1 + e)"
proof -
  assume "0 \<le> e"
  then have "b64 1 \<le> b64 (1 + e)" by (intro b64_mono) simp
  then show ?thesis by (simp add: b64_values)
qed


text \<open>
  The bonus where the result of the engine is finite, where it is
  \<^verbatim>\<open>Infinity\<close>, from 600 completed minutes on, and at 45.
\<close>

lemma commitmentBonus_engine_Finite:
  assumes "E (b64 (- b64 0.07 * b64 (c - 45))) = Finite e"
  shows "commitmentBonus_engine E c = b64 (21 / 2 / b64 (1 + e))"
  unfolding commitmentBonus_engine_def assms by (simp add: maxBonus_def b64_values)

lemma commitmentBonus_engine_PlusInfinity:
  assumes "E (b64 (- b64 0.07 * b64 (c - 45))) = PlusInfinity"
  shows "commitmentBonus_engine E c = 0"
  unfolding commitmentBonus_engine_def assms by simp

lemma commitmentBonus_engine_low:
  assumes "engine_exp E" and "b64 (- b64 0.07 * b64 (c - 45)) \<le> - 38"
  shows "commitmentBonus_engine E c = 21 / 2"
proof -
  define t where "t = b64 (- b64 0.07 * b64 (c - 45))"
  have "t \<le> - 38" unfolding t_def by (rule assms(2))
  with assms(1) obtain e where e: "E t = Finite e" "0 \<le> e" "e \<le> pow2 (- 53)"
    using engine_exp_tiny by blast
  then have "b64 (1 + e) = 1" by (intro b64_one_plus_tiny)
  then show ?thesis
    using commitmentBonus_engine_Finite [of E c e] e(1)
    by (simp add: t_def b64_values)
qed

lemma commitmentBonus_engine_saturated:
  assumes "engine_exp E" and "600 \<le> c"
  shows "commitmentBonus_engine E c = 10.5"
proof -
  have "b64 (- b64 0.07 * b64 (c - 45)) \<le> - 38"
    using assms(2) by (rule exponent_le)
  with assms(1) have "commitmentBonus_engine E c = 21 / 2"
    by (rule commitmentBonus_engine_low)
  then show ?thesis by simp
qed

lemma commitmentBonus_engine_45:
  assumes "engine_exp E"
  shows "commitmentBonus_engine E 45 = 5.25"
  using engine_exp_0 [OF assms]
  by (simp add: commitmentBonus_engine_def maxBonus_def b64_values)

lemma commitmentBonus_engine_range:
  assumes "engine_exp E"
  shows "0 \<le> commitmentBonus_engine E c" and "commitmentBonus_engine E c \<le> 10.5"
proof -
  define t where "t = b64 (- b64 0.07 * b64 (c - 45))"
  have "0 \<le> commitmentBonus_engine E c \<and> commitmentBonus_engine E c \<le> 10.5"
  proof (cases "E t")
    case PlusInfinity
    then show ?thesis
      using commitmentBonus_engine_PlusInfinity [of E c] by (simp add: t_def)
  next
    case (Finite e)
    have "0 \<le> e" using engine_exp_Finite(1) [OF assms Finite] .
    then have s: "1 \<le> b64 (1 + e)" by (rule sum_ge_1)
    then have "0 \<le> 21 / 2 / b64 (1 + e)" by simp
    then have lo: "0 \<le> b64 (21 / 2 / b64 (1 + e))" by (rule b64_nonneg)
    have "21 / 2 / b64 (1 + e) \<le> 21 / 2 / 1"
      using s by (intro divide_left_mono) simp_all
    then have "b64 (21 / 2 / b64 (1 + e)) \<le> b64 (21 / 2)"
      by (intro b64_mono) simp
    then have hi: "b64 (21 / 2 / b64 (1 + e)) \<le> 21 / 2" by (simp add: b64_values)
    from lo hi show ?thesis
      using commitmentBonus_engine_Finite [of E c e] Finite by (simp add: t_def)
  qed
  then show "0 \<le> commitmentBonus_engine E c" and "commitmentBonus_engine E c \<le> 10.5"
    by blast+
qed








text \<open>
  With the correctly rounded exponential the bonus is the one of the second model, as
  long as the exponential does not overflow.
\<close>

lemma commitmentBonus_engine_binary64:
  assumes "- 10000 \<le> c"
  shows "commitmentBonus_engine exp_rounded c = commitmentBonus_binary64 c"
proof (cases "600 \<le> c")
  case True
  then show ?thesis
    by (simp add: commitmentBonus_engine_saturated [OF engine_exp_exp_rounded]
        commitmentBonus_binary64_saturated)
next
  case False
  define t where "t = b64 (- b64 0.07 * b64 (c - 45))"
  have "- 39 \<le> t" unfolding t_def using False by (intro exponent_ge) simp
  moreover have "t \<le> 704" unfolding t_def using assms by (rule exponent_le_704)
  ultimately have "exp_rounded t = Finite (Math_exp t)" by (rule exp_rounded_Math_exp)
  then have "commitmentBonus_engine exp_rounded c = b64 (21 / 2 / b64 (1 + Math_exp t))"
    unfolding t_def by (rule commitmentBonus_engine_Finite)
  moreover have "commitmentBonus_binary64 c = b64 (21 / 2 / b64 (1 + Math_exp t))"
    unfolding commitmentBonus_binary64_def t_def by (simp add: maxBonus_def b64_values)
  ultimately show ?thesis by simp
qed







section \<open>The score\<close>

subsection \<open>Three sessions\<close>

text \<open>A session of 45 minutes, completed, started on time.\<close>

lemma score_on_time_45:
  "calculateProductivityScore
     \<lparr>scheduledStart = t, actualStart = t, durationMinutes = 45, completedMinutes = 45\<rparr>
   = \<lparr>promptnessScore = 30, focusScore = 60, commitmentBonus = 5, totalScore = 95\<rparr>"
  by (simp add: calculateProductivityScore_def totalScore_unrounded_def getDelayMinutes_def
      promptnessScore_unrounded_def focusScore_unrounded_def getCompletionPercentage_def
      commitmentBonus_at_45 Math_round_def)

lemma getCompletionPercentage_binary64_full:
  "0 < d \<Longrightarrow> getCompletionPercentage_binary64 d d = 100"
  by (simp add: getCompletionPercentage_binary64_def b64_values Math_round_def)

lemma score_binary64_on_time_45:
  "calculateProductivityScore_binary64
     \<lparr>scheduledStart = t, actualStart = t, durationMinutes = 45, completedMinutes = 45\<rparr>
   = \<lparr>promptnessScore = 30, focusScore = 60, commitmentBonus = 5, totalScore = 95\<rparr>"
  by (simp add: calculateProductivityScore_binary64_def totalScore_binary64_def
      promptnessScore_binary64_def focusScore_binary64_def
      getCompletionPercentage_binary64_full commitmentBonus_binary64_45
      b64_values Math_round_def)


lemma getDelayMinutes_binary64_five: "getDelayMinutes_binary64 0 300000 = 5"
  by (simp add: getDelayMinutes_binary64_def b64_values)


text \<open>A session of 600 minutes, completed, started on time.\<close>

lemma score_binary64_600:
  "calculateProductivityScore_binary64
     \<lparr>scheduledStart = t, actualStart = t, durationMinutes = 600, completedMinutes = 600\<rparr>
   = \<lparr>promptnessScore = 30, focusScore = 60, commitmentBonus = 11, totalScore = 100\<rparr>"
  by (simp add: calculateProductivityScore_binary64_def totalScore_binary64_def
      promptnessScore_binary64_def focusScore_binary64_def
      getCompletionPercentage_binary64_full commitmentBonus_binary64_saturated
      b64_values Math_round_def)

subsection \<open>The ranges of the fields\<close>

lemma Math_round_min_100: "Math_round (min 100 x) \<le> 100"
proof -
  have "min 100 x < of_int 100 + 1 / 2" by (simp add: min_less_iff_disj)
  then show ?thesis by (rule Math_round_le)
qed

lemma focusScore_range:
  "0 \<le> focusScore_unrounded c d \<and> focusScore_unrounded c d \<le> 60"
  using getCompletionPercentage_range [of c d] by (simp add: focusScore_unrounded_def)

text \<open>
  In exact arithmetic every field is in its range: the bonus before rounding is below
  10.5, so it rounds to 10 at most.
\<close>

lemma score_ranges:
  "0 \<le> promptnessScore (calculateProductivityScore i)
   \<and> promptnessScore (calculateProductivityScore i) \<le> 30
   \<and> 0 \<le> focusScore (calculateProductivityScore i)
   \<and> focusScore (calculateProductivityScore i) \<le> 60
   \<and> 0 \<le> commitmentBonus (calculateProductivityScore i)
   \<and> commitmentBonus (calculateProductivityScore i) \<le> 10
   \<and> 0 \<le> totalScore (calculateProductivityScore i)
   \<and> totalScore (calculateProductivityScore i) \<le> 100"
proof -
  define p where "p = promptnessScore_unrounded
    (getDelayMinutes (scheduledStart i) (actualStart i))"
  define f where "f = focusScore_unrounded (completedMinutes i) (durationMinutes i)"
  define b where "b = commitmentBonus_unrounded (completedMinutes i)"
  have p: "0 \<le> p" "p \<le> 30"
    using promptnessScore_range by (simp_all add: p_def)
  have f: "0 \<le> f" "f \<le> 60"
    using focusScore_range by (simp_all add: f_def)
  have b: "0 \<le> b" "b < 10.5"
    using commitmentBonus_pos commitmentBonus_less by (simp_all add: b_def less_imp_le)
  have t: "totalScore_unrounded i = min 100 (p + f + b)"
    by (simp add: totalScore_unrounded_def p_def f_def b_def)
  have "0 \<le> Math_round p" "0 \<le> Math_round f" "0 \<le> Math_round b"
    "0 \<le> Math_round (min 100 (p + f + b))"
    using p f b by (simp_all add: Math_round_nonneg)
  moreover have "Math_round p \<le> 30" "Math_round f \<le> 60" "Math_round b \<le> 10"
    "Math_round (min 100 (p + f + b)) \<le> 100"
    using p f b by (simp_all add: Math_round_le Math_round_min_100)
  ultimately show ?thesis
    by (simp add: calculateProductivityScore_def t p_def f_def b_def)
qed

text \<open>
  In binary64 the bonus before rounding reaches 10.5, and the bound of its field is 11.
  The other fields are in their ranges.
\<close>

lemma focusScore_binary64_range:
  "0 \<le> focusScore_binary64 c d \<and> focusScore_binary64 c d \<le> 60"
proof -
  define pct where "pct = getCompletionPercentage_binary64 c d"
  have r: "0 \<le> pct" "pct \<le> 100"
    using getCompletionPercentage_binary64_range [of c d] by (simp_all add: pct_def)
  have "0 \<le> real_of_int pct / 100" using r by simp
  then have q0: "0 \<le> b64 (real_of_int pct / 100)" by (rule b64_nonneg)
  then have "0 \<le> b64 (real_of_int pct / 100) * 60" by simp
  then have lo: "0 \<le> b64 (b64 (real_of_int pct / 100) * 60)" by (rule b64_nonneg)
  have "real_of_int pct / 100 \<le> 1" using r by simp
  then have "b64 (real_of_int pct / 100) \<le> b64 1" by (rule b64_mono)
  then have "b64 (real_of_int pct / 100) * 60 \<le> 60" by (simp add: b64_values)
  then have "b64 (b64 (real_of_int pct / 100) * 60) \<le> b64 60" by (rule b64_mono)
  then have hi: "b64 (b64 (real_of_int pct / 100) * 60) \<le> 60" by (simp add: b64_values)
  from lo hi show ?thesis
    by (simp add: focusScore_binary64_def pct_def)
qed

lemma score_binary64_ranges:
  "0 \<le> promptnessScore (calculateProductivityScore_binary64 i)
   \<and> promptnessScore (calculateProductivityScore_binary64 i) \<le> 30
   \<and> 0 \<le> focusScore (calculateProductivityScore_binary64 i)
   \<and> focusScore (calculateProductivityScore_binary64 i) \<le> 60
   \<and> 0 \<le> commitmentBonus (calculateProductivityScore_binary64 i)
   \<and> commitmentBonus (calculateProductivityScore_binary64 i) \<le> 11
   \<and> 0 \<le> totalScore (calculateProductivityScore_binary64 i)
   \<and> totalScore (calculateProductivityScore_binary64 i) \<le> 100"
proof -
  define p where "p = promptnessScore_binary64
    (getDelayMinutes_binary64 (scheduledStart i) (actualStart i))"
  define f where "f = focusScore_binary64 (completedMinutes i) (durationMinutes i)"
  define b where "b = commitmentBonus_binary64 (completedMinutes i)"
  have p: "0 \<le> p" "p \<le> 30"
    using promptnessScore_range by (simp_all add: p_def promptnessScore_binary64_exact)
  have f: "0 \<le> f" "f \<le> 60"
    using focusScore_binary64_range by (simp_all add: f_def)
  have b: "0 \<le> b" "b \<le> 10.5"
    using commitmentBonus_binary64_pos commitmentBonus_binary64_le
    by (simp_all add: b_def less_imp_le)
  have "0 \<le> b64 (p + f)" using p f by (intro b64_nonneg) simp
  then have s: "0 \<le> b64 (b64 (p + f) + b)" using b by (intro b64_nonneg) simp
  have t: "totalScore_binary64 i = min 100 (b64 (b64 (p + f) + b))"
    by (simp add: totalScore_binary64_def p_def f_def b_def)
  have "0 \<le> Math_round p" "0 \<le> Math_round f" "0 \<le> Math_round b"
    "0 \<le> Math_round (min 100 (b64 (b64 (p + f) + b)))"
    using p f b s by (simp_all add: Math_round_nonneg)
  moreover have "Math_round p \<le> 30" "Math_round f \<le> 60" "Math_round b \<le> 11"
    "Math_round (min 100 (b64 (b64 (p + f) + b))) \<le> 100"
    using p f b by (simp_all add: Math_round_le Math_round_min_100)
  ultimately show ?thesis
    by (simp add: calculateProductivityScore_binary64_def t p_def f_def b_def)
qed

text \<open>
  C4. The fields returned are to lie in the ranges 0 to 30, 0 to 60, 0 to 10 and 0 to
  100. For a session of 600 minutes, completed, started on time, the function as it
  runs returns the commitment bonus 11: the bonus before rounding is exactly 10.5, and
  \<^verbatim>\<open>Math.round\<close> takes 10.5 to 11.
\<close>

theorem calculateProductivityScore_binary64_bonus_11:
  "calculateProductivityScore_binary64
     \<lparr>scheduledStart = 0, actualStart = 0, durationMinutes = 600, completedMinutes = 600\<rparr>
   = \<lparr>promptnessScore = 30, focusScore = 60, commitmentBonus = 11, totalScore = 100\<rparr>
   \<and> \<not> commitmentBonus (calculateProductivityScore_binary64
       \<lparr>scheduledStart = 0, actualStart = 0, durationMinutes = 600, completedMinutes = 600\<rparr>)
     \<le> 10"
  by (simp add: score_binary64_600)

subsection \<open>Rounding the parts and rounding the sum\<close>


subsection \<open>A completed session of 45 minutes\<close>

text \<open>
  C7, as amended. A session of 45 minutes, completed, started on time, is returned as
  promptness 30, focus 60, commitment bonus 5 and total 95: 45 completed minutes are the
  midpoint of the bonus curve, where the bonus is 5.25. Exact arithmetic and binary64
  agree on it.
\<close>

theorem calculateProductivityScore_45_45_on_time:
  "calculateProductivityScore
     \<lparr>scheduledStart = t, actualStart = t, durationMinutes = 45, completedMinutes = 45\<rparr>
   = \<lparr>promptnessScore = 30, focusScore = 60, commitmentBonus = 5, totalScore = 95\<rparr>
   \<and> calculateProductivityScore_binary64
     \<lparr>scheduledStart = t, actualStart = t, durationMinutes = 45, completedMinutes = 45\<rparr>
   = \<lparr>promptnessScore = 30, focusScore = 60, commitmentBonus = 5, totalScore = 95\<rparr>"
  using score_on_time_45 score_binary64_on_time_45 by (rule conjI)

text \<open>The total of that session is not 100, and its bonus is not 10.\<close>

theorem calculateProductivityScore_45_45_not_100:
  "totalScore (calculateProductivityScore
       \<lparr>scheduledStart = 0, actualStart = 0, durationMinutes = 45, completedMinutes = 45\<rparr>)
     \<noteq> 100
   \<and> commitmentBonus (calculateProductivityScore
       \<lparr>scheduledStart = 0, actualStart = 0, durationMinutes = 45, completedMinutes = 45\<rparr>)
     \<noteq> 10
   \<and> totalScore (calculateProductivityScore_binary64
       \<lparr>scheduledStart = 0, actualStart = 0, durationMinutes = 45, completedMinutes = 45\<rparr>)
     \<noteq> 100
   \<and> commitmentBonus (calculateProductivityScore_binary64
       \<lparr>scheduledStart = 0, actualStart = 0, durationMinutes = 45, completedMinutes = 45\<rparr>)
     \<noteq> 10"
  by (simp add: score_on_time_45 score_binary64_on_time_45)

subsection \<open>The score with the exponential of the engine\<close>

text \<open>
  With the correctly rounded exponential the score is the one of the second model, as
  long as the exponential does not overflow.
\<close>

lemma calculateProductivityScore_engine_binary64:
  assumes "- 10000 \<le> completedMinutes i"
  shows "calculateProductivityScore_engine exp_rounded i = calculateProductivityScore_binary64 i"
  by (simp add: calculateProductivityScore_engine_def calculateProductivityScore_binary64_def
      totalScore_engine_def totalScore_binary64_def commitmentBonus_engine_binary64 [OF assms])

text \<open>
  The three sessions above evaluate to the same scores with the exponential of any
  engine, and the ranges of the fields are the same.
\<close>

lemma score_engine_on_time_45:
  assumes "engine_exp E"
  shows "calculateProductivityScore_engine E
     \<lparr>scheduledStart = t, actualStart = t, durationMinutes = 45, completedMinutes = 45\<rparr>
   = \<lparr>promptnessScore = 30, focusScore = 60, commitmentBonus = 5, totalScore = 95\<rparr>"
  by (simp add: calculateProductivityScore_engine_def totalScore_engine_def
      promptnessScore_binary64_def focusScore_binary64_def
      getCompletionPercentage_binary64_full commitmentBonus_engine_45 [OF assms]
      b64_values Math_round_def)

lemma score_engine_five_late_45:
  assumes "engine_exp E"
  shows "calculateProductivityScore_engine E
     \<lparr>scheduledStart = 0, actualStart = 300000, durationMinutes = 45, completedMinutes = 45\<rparr>
   = \<lparr>promptnessScore = 24, focusScore = 60, commitmentBonus = 5, totalScore = 90\<rparr>"
  by (simp add: calculateProductivityScore_engine_def totalScore_engine_def
      getDelayMinutes_binary64_five promptnessScore_binary64_exact
      promptnessScore_unrounded_def focusScore_binary64_def
      getCompletionPercentage_binary64_full commitmentBonus_engine_45 [OF assms]
      b64_values Math_round_def)

lemma score_engine_600:
  assumes "engine_exp E"
  shows "calculateProductivityScore_engine E
     \<lparr>scheduledStart = t, actualStart = t, durationMinutes = 600, completedMinutes = 600\<rparr>
   = \<lparr>promptnessScore = 30, focusScore = 60, commitmentBonus = 11, totalScore = 100\<rparr>"
  by (simp add: calculateProductivityScore_engine_def totalScore_engine_def
      promptnessScore_binary64_def focusScore_binary64_def
      getCompletionPercentage_binary64_full commitmentBonus_engine_saturated [OF assms]
      b64_values Math_round_def)

lemma score_engine_ranges:
  assumes "engine_exp E"
  shows "0 \<le> promptnessScore (calculateProductivityScore_engine E i)
   \<and> promptnessScore (calculateProductivityScore_engine E i) \<le> 30
   \<and> 0 \<le> focusScore (calculateProductivityScore_engine E i)
   \<and> focusScore (calculateProductivityScore_engine E i) \<le> 60
   \<and> 0 \<le> commitmentBonus (calculateProductivityScore_engine E i)
   \<and> commitmentBonus (calculateProductivityScore_engine E i) \<le> 11
   \<and> 0 \<le> totalScore (calculateProductivityScore_engine E i)
   \<and> totalScore (calculateProductivityScore_engine E i) \<le> 100"
proof -
  define p where "p = promptnessScore_binary64
    (getDelayMinutes_binary64 (scheduledStart i) (actualStart i))"
  define f where "f = focusScore_binary64 (completedMinutes i) (durationMinutes i)"
  define b where "b = commitmentBonus_engine E (completedMinutes i)"
  have p: "0 \<le> p" "p \<le> 30"
    using promptnessScore_range by (simp_all add: p_def promptnessScore_binary64_exact)
  have f: "0 \<le> f" "f \<le> 60"
    using focusScore_binary64_range by (simp_all add: f_def)
  have b: "0 \<le> b" "b \<le> 10.5"
    using commitmentBonus_engine_range [OF assms] by (simp_all add: b_def)
  have "0 \<le> b64 (p + f)" using p f by (intro b64_nonneg) simp
  then have s: "0 \<le> b64 (b64 (p + f) + b)" using b by (intro b64_nonneg) simp
  have t: "totalScore_engine E i = min 100 (b64 (b64 (p + f) + b))"
    by (simp add: totalScore_engine_def p_def f_def b_def)
  have "0 \<le> Math_round p" "0 \<le> Math_round f" "0 \<le> Math_round b"
    "0 \<le> Math_round (min 100 (b64 (b64 (p + f) + b)))"
    using p f b s by (simp_all add: Math_round_nonneg)
  moreover have "Math_round p \<le> 30" "Math_round f \<le> 60" "Math_round b \<le> 11"
    "Math_round (min 100 (b64 (b64 (p + f) + b))) \<le> 100"
    using p f b by (simp_all add: Math_round_le Math_round_min_100)
  ultimately show ?thesis
    by (simp add: calculateProductivityScore_engine_def t p_def f_def b_def)
qed

end
